theory Spec2Isabelle
  imports Main "HOL-Library.AList"
begin

section \<open>The onboarding planner (\<open>src/unnamed/part_003\<close>)\<close>

text \<open>
  The script reads five CSV manifests from the working directory, indexes each by
  \<open>project_id\<close>, builds one plan per key of the primary index and either prints the
  plan as JSON (dry run) or creates the working directories (apply).

  What the script takes from outside is part of the input of the model:
  \<^item> the disk is a map from absolute paths to directories and regular files;
  \<^item> a regular file is described by what the two parsers the script imports return on
    its text: \<open>csv-parse\<close>'s \<open>parse(text, {columns: true, skip_empty_lines: true})\<close>
    (a list of records, or an exception) and \<open>dotenv.parse(text)\<close> (an object);
  \<^item> \<open>path.join\<close> is Node's POSIX one, on a working directory that is absolute and
    normalised, as \<open>process.cwd()\<close> is.
  Permissions are not modelled: a path is absent, a directory or a readable file.
  The limits on the names of paths are those of Linux.
\<close>

subsection \<open>Paths\<close>

type_synonym path = "string list"

fun split_slash :: "string \<Rightarrow> string list" where
  "split_slash [] = [[]]"
| "split_slash (c # cs) =
     (if c = CHR ''/'' then [] # split_slash cs
      else (case split_slash cs of [] \<Rightarrow> [[c]] | x # xs \<Rightarrow> (c # x) # xs))"

text \<open>
  One segment of \<open>normalize\<close>: empty segments and \<open>.\<close> are dropped, \<open>..\<close> removes the
  last component (and stays at the root of an absolute path).
\<close>

definition norm_step :: "path \<Rightarrow> string \<Rightarrow> path" where
  "norm_step acc seg =
     (if seg = [] \<or> seg = ''.'' then acc
      else if seg = ''..'' then butlast acc
      else acc @ [seg])"

definition path_join :: "path \<Rightarrow> string list \<Rightarrow> path" where
  "path_join base segs = foldl norm_step base (concat (map split_slash segs))"

definition path_string :: "path \<Rightarrow> string" where
  "path_string p = (if p = [] then ''/'' else concat (map (\<lambda>c. ''/'' @ c) p))"

subsection \<open>The disk\<close>

text \<open>
  A record of a CSV maps the names of the header to the cells, all of them strings. Of a
  regular file the model keeps \<open>csv\<close>, the records \<open>csv-parse\<close> returns on its text
  (\<open>None\<close> when it throws), and \<open>dotenv\<close>, the own properties of the object
  \<open>dotenv.parse\<close> returns on its text, in creation order.
\<close>

type_synonym row = "string \<rightharpoonup> string"

record parsed =
  csv :: "row list option"
  dotenv :: "(string \<times> string) list"

datatype node = Dir | File parsed

record world =
  cwd :: path
  nodes :: "path \<rightharpoonup> node"

datatype error =
  ENOENT | EISDIR | EEXIST | ENOTDIR | ENAMETOOLONG | ERR_INVALID_ARG_VALUE | ParseError
  | TypeError

definition lookup :: "world \<Rightarrow> path \<Rightarrow> node option" where
  "lookup w p = (if p = [] then Some Dir else nodes w p)"

text \<open>
  Every call of \<open>fs\<close> first fails on a path it cannot name: Node refuses a NUL byte
  (\<open>ERR_INVALID_ARG_VALUE\<close>), and the system refuses a component of more than 255
  bytes and a path of more than 4095 bytes (\<open>ENAMETOOLONG\<close>).
\<close>

definition path_error :: "path \<Rightarrow> error option" where
  "path_error p =
     (if list_ex (\<lambda>c. CHR 0x00 \<in> set c) p then Some ERR_INVALID_ARG_VALUE
      else if list_ex (\<lambda>c. 255 < length c) p \<or> 4095 < length (path_string p)
      then Some ENAMETOOLONG
      else None)"

text \<open>
  \<open>fileExists\<close>: \<open>fs.access(p)\<close> with the default mode, every failure caught as
  \<open>false\<close>.
\<close>

definition fileExists :: "world \<Rightarrow> path \<Rightarrow> bool" where
  "fileExists w p =
     (case path_error p of
        Some e \<Rightarrow> False
      | None \<Rightarrow> (case lookup w p of None \<Rightarrow> False | Some n \<Rightarrow> True))"

definition readFile :: "world \<Rightarrow> path \<Rightarrow> error + parsed" where
  "readFile w p =
     (case path_error p of
        Some e \<Rightarrow> Inl e
      | None \<Rightarrow>
          (case lookup w p of
             None \<Rightarrow> Inl ENOENT
           | Some Dir \<Rightarrow> Inl EISDIR
           | Some (File f) \<Rightarrow> Inr f))"

text \<open>
  \<open>fs.mkdir(p, {recursive: true})\<close>: an existing directory is left alone, a regular
  file at the path is \<open>EEXIST\<close>, a regular file above it is \<open>ENOTDIR\<close>, and missing
  parents are created first.
\<close>

function make_dirs :: "world \<Rightarrow> path \<Rightarrow> error + world" where
  "make_dirs w p =
     (case lookup w p of
        Some Dir \<Rightarrow> Inr w
      | Some (File f) \<Rightarrow> Inl EEXIST
      | None \<Rightarrow>
          (case make_dirs w (butlast p) of
             Inl e \<Rightarrow> Inl ENOTDIR
           | Inr w' \<Rightarrow> Inr (w'\<lparr>nodes := (nodes w')(p \<mapsto> Dir)\<rparr>)))"
  by pat_completeness auto
termination
  by (relation "measure (\<lambda>(w, p). length p)") (auto simp: lookup_def split: if_splits)

declare make_dirs.simps [simp del]

definition mkdir :: "world \<Rightarrow> path \<Rightarrow> error + world" where
  "mkdir w p = (case path_error p of Some e \<Rightarrow> Inl e | None \<Rightarrow> make_dirs w p)"

subsection \<open>JavaScript objects\<close>

text \<open>
  An object is the list of its own properties in creation order; assigning to an
  existing key keeps its place. \<open>Object.keys\<close> lists the keys that are array indices
  (canonical decimal strings below \<open>2^32 - 1\<close>) first, in ascending numeric order, then
  the other keys in creation order.
\<close>

type_synonym 'v obj = "(string \<times> 'v) list"

definition fromEntries :: "(string \<times> 'v) list \<Rightarrow> 'v obj" where
  "fromEntries es = foldl (\<lambda>ob (k, v). AList.update k v ob) [] es"

definition digit_val :: "char \<Rightarrow> nat" where
  "digit_val c = of_char c - 48"

definition is_digit :: "char \<Rightarrow> bool" where
  "is_digit c = (c \<in> set ''0123456789'')"

definition index_value :: "string \<Rightarrow> nat" where
  "index_value s = foldl (\<lambda>n c. 10 * n + digit_val c) 0 s"

definition is_array_index :: "string \<Rightarrow> bool" where
  "is_array_index s =
     (s \<noteq> [] \<and> list_all is_digit s \<and> (s = ''0'' \<or> hd s \<noteq> CHR ''0'')
      \<and> index_value s < 4294967295)"

definition object_keys :: "'v obj \<Rightarrow> string list" where
  "object_keys ob =
     sort_key index_value (filter is_array_index (map fst ob))
     @ filter (\<lambda>k. \<not> is_array_index k) (map fst ob)"

text \<open>
  Reading \<open>ob[k]\<close> on an object made by \<open>Object.fromEntries\<close> or \<open>{}\<close> falls back to
  \<open>Object.prototype\<close> when \<open>k\<close> is not an own property.
\<close>

definition object_prototype_names :: "string list" where
  "object_prototype_names =
     [''constructor'', ''__defineGetter__'', ''__defineSetter__'', ''hasOwnProperty'',
      ''__lookupGetter__'', ''__lookupSetter__'', ''isPrototypeOf'',
      ''propertyIsEnumerable'', ''toString'', ''valueOf'', ''__proto__'',
      ''toLocaleString'']"

datatype 'v js_value = Undefined | Own 'v | Inherited

definition obj_get :: "'v obj \<Rightarrow> string \<Rightarrow> 'v js_value" where
  "obj_get ob k =
     (case map_of ob k of
        Some v \<Rightarrow> Own v
      | None \<Rightarrow> if k \<in> set object_prototype_names then Inherited else Undefined)"

definition truthy :: "'v js_value \<Rightarrow> bool" where
  "truthy v = (case v of Undefined \<Rightarrow> False | _ \<Rightarrow> True)"

text \<open>
  \<open>v.k\<close> for a record of a CSV, or for a member of \<open>Object.prototype\<close> (a built-in
  function or \<open>Object.prototype\<close> itself, none of which has one of the column names
  the script reads).
\<close>

definition field :: "row js_value \<Rightarrow> string \<Rightarrow> error + string option" where
  "field v k = (case v of Undefined \<Rightarrow> Inl TypeError | Own r \<Rightarrow> Inr (r k) | Inherited \<Rightarrow> Inr None)"

text \<open>
  \<open>t || {}\<close> as \<open>pick\<close> reads it: a record is itself, \<open>undefined\<close> gives the empty
  object, and an inherited member has none of the columns \<open>pick\<close> asks for.
\<close>

definition or_empty :: "row js_value \<Rightarrow> row" where
  "or_empty v = (case v of Own r \<Rightarrow> r | _ \<Rightarrow> Map.empty)"

subsection \<open>The script\<close>

definition readCsvSync :: "world \<Rightarrow> path \<Rightarrow> error + row list" where
  "readCsvSync w p =
     (case readFile w p of
        Inl e \<Rightarrow> Inl e
      | Inr f \<Rightarrow> (case csv f of None \<Rightarrow> Inl ParseError | Some rows \<Rightarrow> Inr rows))"

definition envPathForProject :: "world \<Rightarrow> string \<Rightarrow> path" where
  "envPathForProject w projectId = path_join (cwd w) [''secrets'', projectId, ''.env'']"

record env_info =
  envPath :: string
  present :: bool
  vars :: "string list"

definition loadEnvIfExists :: "world \<Rightarrow> string \<Rightarrow> error + env_info" where
  "loadEnvIfExists w projectId =
     (let p = envPathForProject w projectId in
      if fileExists w p then
        (case readFile w p of
           Inl e \<Rightarrow> Inl e
         | Inr f \<Rightarrow> Inr \<lparr>envPath = path_string p, present = True, vars = object_keys (dotenv f)\<rparr>)
      else Inr \<lparr>envPath = path_string p, present = False, vars = []\<rparr>)"

definition pick :: "row \<Rightarrow> string list \<Rightarrow> string obj" where
  "pick ob keys =
     foldl (\<lambda>acc k. case ob k of Some v \<Rightarrow> AList.update k v acc | None \<Rightarrow> acc) [] keys"

text \<open>The values that appear in the \<open>details\<close> of a check, as \<open>JSON.stringify\<close> sees them.\<close>

datatype jval = JStr string | JBool bool | JStrs "string list"

definition env_details :: "env_info \<Rightarrow> jval obj" where
  "env_details e =
     [(''envPath'', JStr (envPath e)), (''present'', JBool (present e)), (''vars'', JStrs (vars e))]"

definition row_details :: "string obj \<Rightarrow> jval obj" where
  "row_details ob = map (\<lambda>(k, v). (k, JStr v)) ob"

record check =
  kind :: string
  ok :: bool
  details :: "jval obj"

record plan =
  projectId :: string
  type :: "string option"
  checks :: "check list"
  actions :: "string list"

record summary =
  missingFiles :: "string list"
  presentFiles :: "string list"
  totalProjects :: nat
  plans :: "plan list"

definition isDryRun :: "string list \<Rightarrow> bool" where
  "isDryRun args = (''--dry-run'' \<in> set args \<or> ''--apply'' \<notin> set args)"

definition requiredFiles :: "string list" where
  "requiredFiles =
     [''PROJECTS_MANIFEST.csv'', ''PLAYWRIGHT_TESTS.csv'', ''WEBHOOKS.csv'',
      ''HTML_SITES.csv'', ''APPS.csv'']"

definition present_files :: "world \<Rightarrow> string list" where
  "present_files w = filter (\<lambda>f. fileExists w (path_join (cwd w) [f])) requiredFiles"

definition missing :: "world \<Rightarrow> string list" where
  "missing w = filter (\<lambda>f. f \<notin> set (present_files w)) requiredFiles"

text \<open>\<open>await readCsvSync(path.join(process.cwd(), name)).catch(() => [])\<close>\<close>

definition read_rows :: "world \<Rightarrow> string \<Rightarrow> row list" where
  "read_rows w name =
     (case readCsvSync w (path_join (cwd w) [name]) of Inl e \<Rightarrow> [] | Inr rows \<Rightarrow> rows)"

text \<open>The key of \<open>[r.project_id, r]\<close>: a missing column gives the key \<open>undefined\<close>.\<close>

definition project_key :: "row \<Rightarrow> string" where
  "project_key r = (case r ''project_id'' of None \<Rightarrow> ''undefined'' | Some s \<Rightarrow> s)"

definition index_by_id :: "row list \<Rightarrow> row obj" where
  "index_by_id rows = fromEntries (map (\<lambda>r. (project_key r, r)) rows)"

definition byId :: "world \<Rightarrow> row obj" where
  "byId w = index_by_id (read_rows w ''PROJECTS_MANIFEST.csv'')"

definition testsById :: "world \<Rightarrow> row obj" where
  "testsById w = index_by_id (read_rows w ''PLAYWRIGHT_TESTS.csv'')"

definition hooksById :: "world \<Rightarrow> row obj" where
  "hooksById w = index_by_id (read_rows w ''WEBHOOKS.csv'')"

definition sitesById :: "world \<Rightarrow> row obj" where
  "sitesById w = index_by_id (read_rows w ''HTML_SITES.csv'')"

definition appsById :: "world \<Rightarrow> row obj" where
  "appsById w = index_by_id (read_rows w ''APPS.csv'')"

definition projectIds :: "world \<Rightarrow> string list" where
  "projectIds w = object_keys (byId w)"

text \<open>A check of a secondary index: \<open>{kind, ok: !!t, details: pick(t || {}, keys)}\<close>.\<close>

definition row_check :: "string \<Rightarrow> row js_value \<Rightarrow> string list \<Rightarrow> check" where
  "row_check k t keys =
     \<lparr>kind = k, ok = truthy t, details = row_details (pick (or_empty t) keys)\<rparr>"

text \<open>The body of the loop over \<open>projectIds\<close>.\<close>

definition plan_project :: "world \<Rightarrow> string \<Rightarrow> error + plan" where
  "plan_project w pid =
     (let meta = obj_get (byId w) pid in
      case field meta ''type'' of
        Inl e \<Rightarrow> Inl e
      | Inr ty \<Rightarrow>
     (case loadEnvIfExists w pid of
        Inl e \<Rightarrow> Inl e
      | Inr envInfo \<Rightarrow>
     (let c0 = [\<lparr>kind = ''env'', ok = present envInfo, details = env_details envInfo\<rparr>];
          a0 = [];
          (c1, a1) =
            (if ty = Some ''playwright_tests'' then
               (c0 @ [row_check ''tests_row'' (obj_get (testsById w) pid)
                        [''url'', ''browsers'', ''devices'']],
                a0 @ [''scaffold Playwright config and tests'',
                      ''wire CI to run on PR and nightly''])
             else (c0, a0));
          (c2, a2) =
            (if ty = Some ''html_site'' then
               (c1 @ [row_check ''html_row'' (obj_get (sitesById w) pid)
                        [''build_tool'', ''i18n_locales'']],
                a1 @ [''scaffold HTML site with chosen build tool'']
                   @ (case field meta ''deploy_target'' of
                        Inr (Some t) \<Rightarrow> if t \<noteq> [] then [''configure deploy: '' @ t] else []
                      | _ \<Rightarrow> []))
             else (c1, a1));
          (c3, a3) =
            (if ty = Some ''webhook'' then
               (c2 @ [row_check ''webhook_row'' (obj_get (hooksById w) pid)
                        [''provider'', ''endpoint_url'']],
                a2 @ [''validate signing secret and subscribe events'',
                      ''provision DLQ and retries''])
             else (c2, a2));
          a4 = (if truthy (obj_get (appsById w) pid)
                then a3 @ [''prepare app release pipeline''] else a3)
      in Inr \<lparr>projectId = pid, type = ty, checks = c3, actions = a4\<rparr>)))"

fun plan_loop :: "world \<Rightarrow> string list \<Rightarrow> error + plan list" where
  "plan_loop w [] = Inr []"
| "plan_loop w (pid # pids) =
     (case plan_project w pid of
        Inl e \<Rightarrow> Inl e
      | Inr p \<Rightarrow> (case plan_loop w pids of Inl e \<Rightarrow> Inl e | Inr ps \<Rightarrow> Inr (p # ps)))"

definition make_summary :: "world \<Rightarrow> plan list \<Rightarrow> summary" where
  "make_summary w ps =
     \<lparr>missingFiles = missing w, presentFiles = present_files w,
      totalProjects = length (projectIds w), plans = ps\<rparr>"

text \<open>The two loops of apply mode; a failing \<open>mkdir\<close> keeps what was created before it.\<close>

fun ensure_dirs :: "world \<Rightarrow> path list \<Rightarrow> world \<times> error option" where
  "ensure_dirs w [] = (w, None)"
| "ensure_dirs w (p # ps) =
     (case mkdir w p of Inl e \<Rightarrow> (w, Some e) | Inr w' \<Rightarrow> ensure_dirs w' ps)"

definition toEnsure :: "string list" where
  "toEnsure = [''secrets'', ''content'', ''assets'', ''imports'']"

definition project_dirs :: "world \<Rightarrow> string \<Rightarrow> path list" where
  "project_dirs w pid =
     [path_join (cwd w) [''secrets'', pid], path_join (cwd w) [''content'', pid],
      path_join (cwd w) [''assets'', pid]]"

definition apply_dirs :: "world \<Rightarrow> path list" where
  "apply_dirs w =
     map (\<lambda>d. path_join (cwd w) [d]) toEnsure @ concat (map (project_dirs w) (projectIds w))"

datatype printed = PlanDoc summary | ApplyMessage string

text \<open>
  \<open>main\<close> on \<open>process.argv\<close>: the disk it leaves, and what it printed on standard output
  (\<open>Inr\<close>) or the exception that reached \<open>main().catch\<close> (\<open>Inl\<close>), which prints it on
  standard error and exits with status 1.
\<close>

definition main :: "string list \<Rightarrow> world \<Rightarrow> world \<times> (error + printed)" where
  "main argv w =
     (let args = drop 2 argv in
      case plan_loop w (projectIds w) of
        Inl e \<Rightarrow> (w, Inl e)
      | Inr ps \<Rightarrow>
          if isDryRun args then (w, Inr (PlanDoc (make_summary w ps)))
          else (case ensure_dirs w (apply_dirs w) of
                  (w', Some e) \<Rightarrow> (w', Inl e)
                | (w', None) \<Rightarrow>
                    (w', Inr (ApplyMessage
                      ''Apply step ensured base directories. Next steps: repo cloning and scaffolding.''))))"

definition exit_status :: "world \<times> (error + printed) \<Rightarrow> nat" where
  "exit_status r = (case snd r of Inl e \<Rightarrow> 1 | Inr out \<Rightarrow> 0)"

section \<open>Notions used to state the properties\<close>

text \<open>
  The distinct identifiers of a manifest, each at the place of its first row.
\<close>

definition manifest_order :: "row list \<Rightarrow> string list" where
  "manifest_order rows = rev (remdups (rev (map project_key rows)))"

text \<open>What a run printed, when it printed the plan document.\<close>

definition printed_summary :: "world \<times> (error + printed) \<Rightarrow> summary option" where
  "printed_summary r = (case snd r of Inr (PlanDoc s) \<Rightarrow> Some s | _ \<Rightarrow> None)"

definition printed_ids :: "world \<times> (error + printed) \<Rightarrow> string list option" where
  "printed_ids r = map_option (\<lambda>s. map projectId (plans s)) (printed_summary r)"

text \<open>The check of kind \<open>k\<close> in the plan of project \<open>pid\<close> of the printed document.\<close>

definition printed_check :: "world \<times> (error + printed) \<Rightarrow> string \<Rightarrow> string \<Rightarrow> check option" where
  "printed_check r pid k =
     (case printed_summary r of
        None \<Rightarrow> None
      | Some s \<Rightarrow>
          (case find (\<lambda>p. projectId p = pid) (plans s) of
             None \<Rightarrow> None
           | Some p \<Rightarrow> find (\<lambda>c. kind c = k) (checks p)))"

text \<open>
  A later disk that differs from an earlier one only by directories at paths where
  nothing was: what \<open>mkdir\<close> can do to a disk.
\<close>

definition grows :: "world \<Rightarrow> world \<Rightarrow> bool" where
  "grows w w' = (cwd w' = cwd w
     \<and> (\<forall>q. lookup w' q = lookup w q \<or> (lookup w q = None \<and> lookup w' q = Some Dir)))"

text \<open>The disk without whatever is at one path.\<close>

definition remove_node :: "world \<Rightarrow> path \<Rightarrow> world" where
  "remove_node w p = w\<lparr>nodes := (nodes w)(p := None)\<rparr>"

text \<open>
  Two states of a path that differ at most in the text of a file, and there leave the
  names of the variables \<open>dotenv.parse\<close> finds as they are, in the same order: what
  changing the values of a secrets file does to it. What \<open>csv-parse\<close> would make of the
  two texts is free.
\<close>

definition same_names :: "node option \<Rightarrow> node option \<Rightarrow> bool" where
  "same_names a b =
     (case a of
        None \<Rightarrow> (case b of None \<Rightarrow> True | Some n \<Rightarrow> False)
      | Some Dir \<Rightarrow> (case b of Some Dir \<Rightarrow> True | _ \<Rightarrow> False)
      | Some (File f) \<Rightarrow>
          (case b of
             Some (File g) \<Rightarrow> map fst (dotenv f) = map fst (dotenv g)
           | _ \<Rightarrow> False))"

text \<open>The four secondary CSVs.\<close>

definition secondaryFiles :: "string list" where
  "secondaryFiles = [''PLAYWRIGHT_TESTS.csv'', ''WEBHOOKS.csv'', ''HTML_SITES.csv'', ''APPS.csv'']"

text \<open>
  The two ways a run can go once the flags are read. A dry run plans and prints the plan
  document; a run in apply mode plans, creates the directories and prints the message
  of the apply step.
\<close>

definition apply_message :: string where
  "apply_message =
     ''Apply step ensured base directories. Next steps: repo cloning and scaffolding.''"

definition dry_run :: "world \<Rightarrow> world \<times> (error + printed)" where
  "dry_run w =
     (case plan_loop w (projectIds w) of
        Inl e \<Rightarrow> (w, Inl e)
      | Inr ps \<Rightarrow> (w, Inr (PlanDoc (make_summary w ps))))"

definition apply_run :: "world \<Rightarrow> world \<times> (error + printed)" where
  "apply_run w =
     (case plan_loop w (projectIds w) of
        Inl e \<Rightarrow> (w, Inl e)
      | Inr ps \<Rightarrow>
          (case ensure_dirs w (apply_dirs w) of
             (w', Some e) \<Rightarrow> (w', Inl e)
           | (w', None) \<Rightarrow> (w', Inr (ApplyMessage apply_message))))"

section \<open>Sample inputs\<close>

text \<open>\<open>process.argv\<close> of a run with the given flags.\<close>

definition script_argv :: "string list \<Rightarrow> string list" where
  "script_argv flags = [''node'', ''onboard.mjs''] @ flags"

text \<open>A file that parses as a CSV with the given records.\<close>

definition csv_file :: "row list \<Rightarrow> node" where
  "csv_file rows = File \<lparr>csv = Some rows, dotenv = []\<rparr>"

text \<open>A manifest whose identifiers are the array indices \<open>2\<close> and \<open>1\<close>, in this order.\<close>

definition numeric_rows :: "row list" where
  "numeric_rows =
     [[''project_id'' \<mapsto> ''2'', ''type'' \<mapsto> ''html_site''],
      [''project_id'' \<mapsto> ''1'', ''type'' \<mapsto> ''webhook'']]"

definition numeric_world :: world where
  "numeric_world =
     \<lparr>cwd = [''work''],
      nodes = [[''work''] \<mapsto> Dir,
               [''work'', ''PROJECTS_MANIFEST.csv''] \<mapsto> csv_file numeric_rows]\<rparr>"

text \<open>A manifest with three rows for the two identifiers \<open>b\<close> and \<open>a\<close>.\<close>

definition letters_rows :: "row list" where
  "letters_rows =
     [[''project_id'' \<mapsto> ''b'', ''type'' \<mapsto> ''html_site''],
      [''project_id'' \<mapsto> ''a'', ''type'' \<mapsto> ''webhook''],
      [''project_id'' \<mapsto> ''b'', ''type'' \<mapsto> ''playwright_tests'']]"

definition letters_world :: world where
  "letters_world =
     \<lparr>cwd = [''work''],
      nodes = [[''work''] \<mapsto> Dir,
               [''work'', ''PROJECTS_MANIFEST.csv''] \<mapsto> csv_file letters_rows]\<rparr>"

text \<open>The end-to-end scenario of the specification: project \<open>demo1\<close>, no secrets file.\<close>

definition demo_manifest :: row where
  "demo_manifest =
     [''project_id'' \<mapsto> ''demo1'', ''type'' \<mapsto> ''html_site'', ''deploy_target'' \<mapsto> ''vercel'']"

definition demo_site :: row where
  "demo_site =
     [''project_id'' \<mapsto> ''demo1'', ''build_tool'' \<mapsto> ''vite'', ''i18n_locales'' \<mapsto> ''en'']"

definition demo_world :: world where
  "demo_world =
     \<lparr>cwd = [''work''],
      nodes = [[''work''] \<mapsto> Dir,
               [''work'', ''PROJECTS_MANIFEST.csv''] \<mapsto> csv_file [demo_manifest],
               [''work'', ''HTML_SITES.csv''] \<mapsto> csv_file [demo_site]]\<rparr>"

text \<open>Only the primary manifest, with a project named \<open>constructor\<close>.\<close>

definition ctor_rows :: "row list" where
  "ctor_rows = [[''project_id'' \<mapsto> ''constructor'', ''type'' \<mapsto> ''playwright_tests'']]"

definition ctor_world :: world where
  "ctor_world =
     \<lparr>cwd = [''work''],
      nodes = [[''work''] \<mapsto> Dir,
               [''work'', ''PROJECTS_MANIFEST.csv''] \<mapsto> csv_file ctor_rows]\<rparr>"

text \<open>A tests CSV with two rows for project \<open>a\<close> and one for another project.\<close>

definition tests_old :: row where
  "tests_old = [''project_id'' \<mapsto> ''a'', ''url'' \<mapsto> ''https://old.example'']"

definition tests_new :: row where
  "tests_new =
     [''project_id'' \<mapsto> ''a'', ''url'' \<mapsto> ''https://new.example'', ''browsers'' \<mapsto> ''chromium'']"

definition tests_other :: row where
  "tests_other = [''project_id'' \<mapsto> ''b'', ''url'' \<mapsto> ''https://b.example'']"

definition dup_world :: world where
  "dup_world =
     \<lparr>cwd = [''work''],
      nodes = [[''work''] \<mapsto> Dir,
               [''work'', ''PROJECTS_MANIFEST.csv''] \<mapsto>
                 csv_file [[''project_id'' \<mapsto> ''a'', ''type'' \<mapsto> ''playwright_tests'']],
               [''work'', ''PLAYWRIGHT_TESTS.csv''] \<mapsto>
                 csv_file [tests_old, tests_new, tests_other]]\<rparr>"

text \<open>The scenario with a regular file where apply mode wants the directory \<open>secrets\<close>.\<close>

definition blocked_world :: world where
  "blocked_world =
     \<lparr>cwd = [''work''],
      nodes = [[''work''] \<mapsto> Dir,
               [''work'', ''PROJECTS_MANIFEST.csv''] \<mapsto> csv_file [demo_manifest],
               [''work'', ''secrets''] \<mapsto> File \<lparr>csv = None, dotenv = []\<rparr>]\<rparr>"

text \<open>A manifest with the identifiers \<open>x\<close> and \<open>x/.env\<close>.\<close>

definition collide_rows :: "row list" where
  "collide_rows =
     [[''project_id'' \<mapsto> ''x'', ''type'' \<mapsto> ''html_site''],
      [''project_id'' \<mapsto> ''x/.env'', ''type'' \<mapsto> ''html_site'']]"

definition collide_world :: world where
  "collide_world =
     \<lparr>cwd = [''work''],
      nodes = [[''work''] \<mapsto> Dir,
               [''work'', ''PROJECTS_MANIFEST.csv''] \<mapsto> csv_file collide_rows]\<rparr>"

text \<open>A primary manifest that does not parse.\<close>

definition broken_world :: world where
  "broken_world =
     \<lparr>cwd = [''work''],
      nodes = [[''work''] \<mapsto> Dir,
               [''work'', ''PROJECTS_MANIFEST.csv''] \<mapsto> File \<lparr>csv = None, dotenv = []\<rparr>,
               [''work'', ''HTML_SITES.csv''] \<mapsto> csv_file [demo_site]]\<rparr>"

text \<open>
  The scenario with a secrets file for \<open>demo1\<close> of the two lines \<open>VERCEL_TOKEN=v\<close> and
  \<open>API_KEY=vv\<close>; read as a CSV, the first line is the header and the second a record.
\<close>

definition secret_world :: "string \<Rightarrow> world" where
  "secret_world v =
     \<lparr>cwd = [''work''],
      nodes = [[''work''] \<mapsto> Dir,
               [''work'', ''PROJECTS_MANIFEST.csv''] \<mapsto> csv_file [demo_manifest],
               [''work'', ''HTML_SITES.csv''] \<mapsto> csv_file [demo_site],
               [''work'', ''secrets''] \<mapsto> Dir,
               [''work'', ''secrets'', ''demo1''] \<mapsto> Dir,
               [''work'', ''secrets'', ''demo1'', ''.env''] \<mapsto>
                 File \<lparr>csv = Some [[''VERCEL_TOKEN='' @ v \<mapsto> ''API_KEY='' @ v @ v]],
                       dotenv = [(''VERCEL_TOKEN'', v), (''API_KEY'', v @ v)]\<rparr>]\<rparr>"

text \<open>All five CSVs, the secondary ones with extra rows besides those of \<open>demo1\<close>.\<close>

definition stray_row :: row where
  "stray_row =
     [''project_id'' \<mapsto> ''ghost'', ''build_tool'' \<mapsto> ''webpack'', ''url'' \<mapsto> ''https://ghost.example'']"

definition full_world :: "row list \<Rightarrow> world" where
  "full_world extra =
     \<lparr>cwd = [''work''],
      nodes = [[''work''] \<mapsto> Dir,
               [''work'', ''PROJECTS_MANIFEST.csv''] \<mapsto> csv_file [demo_manifest],
               [''work'', ''PLAYWRIGHT_TESTS.csv''] \<mapsto> csv_file extra,
               [''work'', ''WEBHOOKS.csv''] \<mapsto> csv_file [],
               [''work'', ''HTML_SITES.csv''] \<mapsto> csv_file (extra @ [demo_site]),
               [''work'', ''APPS.csv''] \<mapsto> csv_file extra]\<rparr>"

text \<open>
  A primary manifest with two rows for one identifier: the earlier row is a webhook
  deployed to \<open>netlify\<close>, the later one an HTML site with an empty deploy target.
\<close>

definition redeploy_old :: row where
  "redeploy_old =
     [''project_id'' \<mapsto> ''site'', ''type'' \<mapsto> ''webhook'', ''deploy_target'' \<mapsto> ''netlify'']"

definition redeploy_new :: row where
  "redeploy_new =
     [''project_id'' \<mapsto> ''site'', ''type'' \<mapsto> ''html_site'', ''deploy_target'' \<mapsto> []]"

definition redeploy_world :: world where
  "redeploy_world =
     \<lparr>cwd = [''work''],
      nodes = [[''work''] \<mapsto> Dir,
               [''work'', ''PROJECTS_MANIFEST.csv''] \<mapsto> csv_file [redeploy_old, redeploy_new]]\<rparr>"

section \<open>Properties of the model\<close>

subsection \<open>Unfolding the model on a concrete input\<close>

lemmas run_defs = ensure_dirs.simps make_dirs.simps mkdir_def apply_dirs_def project_dirs_def toEnsure_def
  exit_status_def

lemmas path_defs = path_join_def norm_step_def path_string_def envPathForProject_def
lemmas disk_defs = lookup_def path_error_def fileExists_def readFile_def readCsvSync_def
  read_rows_def
lemmas object_defs = fromEntries_def object_keys_def is_array_index_def is_digit_def index_value_def
  digit_val_def obj_get_def object_prototype_names_def truthy_def field_def or_empty_def
  index_by_id_def project_key_def pick_def
lemmas plan_defs = byId_def testsById_def hooksById_def sitesById_def appsById_def projectIds_def
  loadEnvIfExists_def env_details_def row_details_def row_check_def plan_project_def
  make_summary_def present_files_def missing_def requiredFiles_def main_def isDryRun_def
  printed_summary_def printed_ids_def script_argv_def

lemmas sample_defs = csv_file_def numeric_world_def numeric_rows_def demo_world_def demo_manifest_def
  demo_site_def printed_check_def ctor_rows_def ctor_world_def tests_old_def tests_new_def
  tests_other_def dup_world_def

subsection \<open>Objects, paths and directories\<close>

lemma fromEntries_snoc: "fromEntries (es @ [(k, v)]) = AList.update k v (fromEntries es)"
  by (simp add: fromEntries_def)

lemma keys_fromEntries: "map fst (fromEntries es) = rev (remdups (rev (map fst es)))"
proof (induction es rule: rev_induct)
  case Nil
  show ?case by (simp add: fromEntries_def)
next
  case (snoc e es)
  obtain k v where e: "e = (k, v)" by (cases e)
  show ?case
    using snoc by (auto simp: e fromEntries_snoc update_keys)
qed

lemma map_of_fromEntries: "map_of (fromEntries es) = map_of (rev es)"
proof (induction es rule: rev_induct)
  case Nil
  show ?case by (simp add: fromEntries_def)
next
  case (snoc e es)
  obtain k v where e: "e = (k, v)" by (cases e)
  show ?case
    using snoc by (simp add: e fromEntries_snoc update_conv')
qed

lemma set_object_keys: "set (object_keys ob) = fst ` set ob"
  by (auto simp: object_keys_def)

lemma distinct_object_keys: "distinct (map fst ob) \<Longrightarrow> distinct (object_keys ob)"
  by (auto simp: object_keys_def)

lemma keys_index_by_id: "map fst (index_by_id rows) = manifest_order rows"
  by (simp add: index_by_id_def keys_fromEntries manifest_order_def comp_def)

lemma map_of_index_by_id:
  "map_of (index_by_id rows) = map_of (rev (map (\<lambda>r. (project_key r, r)) rows))"
  by (simp add: index_by_id_def map_of_fromEntries)

lemma index_last_wins:
  assumes "\<forall>r'\<in>set post. project_key r' \<noteq> project_key r"
  shows "map_of (index_by_id (pre @ r # post)) (project_key r) = Some r"
proof -
  have "project_key r \<notin> project_key ` set post"
    using assms by auto
  then have "map_of (map (\<lambda>r. (project_key r, r)) (rev post)) (project_key r) = None"
    by (simp add: map_of_eq_None_iff image_image)
  then show ?thesis
    by (simp add: map_of_index_by_id rev_map map_add_def)
qed

lemma index_filter:
  assumes "k \<in> M"
  shows "map_of (index_by_id (filter (\<lambda>r. project_key r \<in> M) rows)) k = map_of (index_by_id rows) k"
  unfolding map_of_index_by_id using assms
  by (induction rows) (auto simp: map_add_def split: option.splits)

lemma split_slash_plain: "CHR ''/'' \<notin> set s \<Longrightarrow> split_slash s = [s]"
  by (induction s) auto

lemma path_join_snoc:
  assumes "CHR ''/'' \<notin> set s"
  shows "path_join base (segs @ [s]) = norm_step (path_join base segs) s"
  using assms by (simp add: path_join_def split_slash_plain)

lemma last_path_join:
  assumes "CHR ''/'' \<notin> set s" "s \<noteq> []" "s \<noteq> ''.''" "s \<noteq> ''..''"
  shows "path_join base (segs @ [s]) \<noteq> [] \<and> last (path_join base (segs @ [s])) = s"
  using assms by (simp add: path_join_snoc norm_step_def)

lemma lookup_update:
  "p \<noteq> [] \<Longrightarrow> lookup (w\<lparr>nodes := (nodes w)(p \<mapsto> n)\<rparr>) q = (if q = p then Some n else lookup w q)"
  by (simp add: lookup_def)

lemma lookup_absent_nonroot: "lookup w p = None \<Longrightarrow> p \<noteq> []"
  by (auto simp: lookup_def)

lemma grows_refl: "grows w w"
  by (simp add: grows_def)

lemma grows_trans: "grows w w' \<Longrightarrow> grows w' w'' \<Longrightarrow> grows w w''"
  unfolding grows_def by (metis option.distinct(1))

lemma grows_Dir: "grows w w' \<Longrightarrow> lookup w p = Some Dir \<Longrightarrow> lookup w' p = Some Dir"
  unfolding grows_def by (metis option.distinct(1))

lemma make_dirs_result:
  "make_dirs w p = Inr w' \<Longrightarrow> lookup w' p = Some Dir \<and> grows w w'"
proof (induction w p arbitrary: w' rule: make_dirs.induct)
  case (1 w p)
  show ?case
  proof (cases "lookup w p")
    case None
    then obtain w0 where w0: "make_dirs w (butlast p) = Inr w0"
      and w': "w' = w0\<lparr>nodes := (nodes w0)(p \<mapsto> Dir)\<rparr>"
      using "1.prems" by (subst (asm) make_dirs.simps) (auto split: sum.splits)
    have ih: "grows w w0"
      using "1.IH"[OF None w0] by simp
    have p: "p \<noteq> []"
      using None by (rule lookup_absent_nonroot)
    have "lookup w0 p = None \<or> lookup w0 p = Some Dir"
      using ih None unfolding grows_def by metis
    then have "grows w0 w'"
      unfolding grows_def w' by (auto simp: lookup_update[OF p])
    with ih have "grows w w'"
      by (rule grows_trans)
    moreover have "lookup w' p = Some Dir"
      by (simp add: w' lookup_update[OF p])
    ultimately show ?thesis
      by simp
  next
    case (Some n)
    then show ?thesis
      using "1.prems" by (subst (asm) make_dirs.simps) (auto split: node.splits simp: grows_refl)
  qed
qed

lemma make_dirs_existing: "lookup w p = Some Dir \<Longrightarrow> make_dirs w p = Inr w"
  by (subst make_dirs.simps) simp

lemma mkdir_result:
  "mkdir w p = Inr w' \<Longrightarrow> path_error p = None \<and> lookup w' p = Some Dir \<and> grows w w'"
  using make_dirs_result [of w p w'] by (simp add: mkdir_def split: option.splits)

lemma mkdir_existing: "path_error p = None \<Longrightarrow> lookup w p = Some Dir \<Longrightarrow> mkdir w p = Inr w"
  by (simp add: mkdir_def make_dirs_existing)

lemma ensure_dirs_grows: "ensure_dirs w ps = (w', r) \<Longrightarrow> grows w w'"
proof (induction ps arbitrary: w)
  case Nil
  then show ?case by (simp add: grows_refl)
next
  case (Cons p ps)
  show ?case
  proof (cases "mkdir w p")
    case (Inl e)
    then show ?thesis using Cons.prems by (simp add: grows_refl)
  next
    case (Inr w0)
    then have "ensure_dirs w0 ps = (w', r)" using Cons.prems by simp
    then have "grows w0 w'" by (rule Cons.IH)
    then show ?thesis using mkdir_result[OF Inr] grows_trans by blast
  qed
qed

lemma ensure_dirs_all:
  "ensure_dirs w ps = (w', None) \<Longrightarrow> \<forall>p\<in>set ps. lookup w' p = Some Dir"
proof (induction ps arbitrary: w)
  case Nil
  then show ?case by simp
next
  case (Cons p ps)
  then obtain w0 where w0: "mkdir w p = Inr w0" and rest: "ensure_dirs w0 ps = (w', None)"
    by (auto split: sum.splits)
  have "lookup w0 p = Some Dir" using mkdir_result[OF w0] by simp
  then have "lookup w' p = Some Dir"
    using ensure_dirs_grows[OF rest] grows_Dir by blast
  then show ?case using Cons.IH[OF rest] by simp
qed

lemma ensure_dirs_again: "ensure_dirs w ps = (w', r) \<Longrightarrow> ensure_dirs w' ps = (w', r)"
proof (induction ps arbitrary: w)
  case Nil
  then show ?case by simp
next
  case (Cons p ps)
  show ?case
  proof (cases "mkdir w p")
    case (Inl e)
    then show ?thesis using Cons.prems by auto
  next
    case (Inr w0)
    then have rest: "ensure_dirs w0 ps = (w', r)" using Cons.prems by simp
    have valid: "path_error p = None" and "lookup w0 p = Some Dir"
      using mkdir_result[OF Inr] by simp_all
    then have "lookup w' p = Some Dir"
      using ensure_dirs_grows[OF rest] grows_Dir by blast
    with valid have "mkdir w' p = Inr w'" by (rule mkdir_existing)
    then show ?thesis using Cons.IH[OF rest] by simp
  qed
qed

subsection \<open>The planning loop\<close>

lemma plan_project_id: "plan_project w pid = Inr p \<Longrightarrow> projectId p = pid"
  unfolding plan_project_def Let_def
  by (auto split: sum.splits prod.splits if_splits)

lemma plan_loop_ids: "plan_loop w ids = Inr ps \<Longrightarrow> map projectId ps = ids"
  by (induction ids arbitrary: ps) (auto split: sum.splits dest: plan_project_id)

lemma loadEnv_ok:
  "lookup w (envPathForProject w pid) \<noteq> Some Dir \<Longrightarrow> \<exists>e. loadEnvIfExists w pid = Inr e"
  unfolding loadEnvIfExists_def Let_def fileExists_def readFile_def
  by (auto split: option.splits node.splits)

lemma plan_project_ok:
  assumes "map_of (byId w) pid \<noteq> None" and "lookup w (envPathForProject w pid) \<noteq> Some Dir"
  shows "\<exists>p. plan_project w pid = Inr p"
proof -
  obtain r where "obj_get (byId w) pid = Own r"
    using assms(1) by (auto simp: obj_get_def)
  moreover obtain e where "loadEnvIfExists w pid = Inr e"
    using loadEnv_ok[OF assms(2)] by blast
  ultimately show ?thesis
    unfolding plan_project_def Let_def
    by (simp add: field_def split: prod.splits)
qed

lemma plan_loop_ok:
  "\<forall>pid\<in>set ids. \<exists>p. plan_project w pid = Inr p \<Longrightarrow> \<exists>ps. plan_loop w ids = Inr ps"
  by (induction ids) (auto split: sum.splits)

lemma set_manifest_order: "set (manifest_order rows) = project_key ` set rows"
  by (simp add: manifest_order_def)

lemma distinct_manifest_order: "distinct (manifest_order rows)"
  by (simp add: manifest_order_def)

lemma read_rows_ok: "readCsvSync w (path_join (cwd w) [name]) = Inr rows \<Longrightarrow> read_rows w name = rows"
  by (simp add: read_rows_def)

lemma read_rows_failed: "readCsvSync w (path_join (cwd w) [name]) = Inl e \<Longrightarrow> read_rows w name = []"
  by (simp add: read_rows_def)

lemma projectIds_eq:
  "projectIds w =
     sort_key index_value (filter is_array_index (manifest_order (read_rows w ''PROJECTS_MANIFEST.csv'')))
     @ filter (\<lambda>k. \<not> is_array_index k) (manifest_order (read_rows w ''PROJECTS_MANIFEST.csv''))"
  by (simp add: projectIds_def byId_def object_keys_def keys_index_by_id)

lemma set_projectIds: "set (projectIds w) = project_key ` set (read_rows w ''PROJECTS_MANIFEST.csv'')"
  by (simp add: projectIds_def set_object_keys byId_def flip: set_map)
     (simp add: keys_index_by_id set_manifest_order)

lemma distinct_projectIds: "distinct (projectIds w)"
  unfolding projectIds_def byId_def
  by (rule distinct_object_keys) (simp add: keys_index_by_id distinct_manifest_order)

lemma projectIds_own: "pid \<in> set (projectIds w) \<Longrightarrow> map_of (byId w) pid \<noteq> None"
  by (simp add: projectIds_def set_object_keys map_of_eq_None_iff)

lemma plan_project_shape:
  "plan_project w pid =
     (case field (obj_get (byId w) pid) ''type'' of
        Inl e \<Rightarrow> Inl e
      | Inr ty \<Rightarrow>
          (case loadEnvIfExists w pid of
             Inl e \<Rightarrow> Inl e
           | Inr envInfo \<Rightarrow>
               Inr \<lparr>projectId = pid, type = ty,
                    checks =
                      \<lparr>kind = ''env'', ok = present envInfo, details = env_details envInfo\<rparr>
                      # (if ty = Some ''playwright_tests''
                         then [row_check ''tests_row'' (obj_get (testsById w) pid)
                                 [''url'', ''browsers'', ''devices'']] else [])
                      @ (if ty = Some ''html_site''
                         then [row_check ''html_row'' (obj_get (sitesById w) pid)
                                 [''build_tool'', ''i18n_locales'']] else [])
                      @ (if ty = Some ''webhook''
                         then [row_check ''webhook_row'' (obj_get (hooksById w) pid)
                                 [''provider'', ''endpoint_url'']] else []),
                    actions =
                      (if ty = Some ''playwright_tests''
                       then [''scaffold Playwright config and tests'',
                             ''wire CI to run on PR and nightly''] else [])
                      @ (if ty = Some ''html_site''
                         then ''scaffold HTML site with chosen build tool''
                              # (case field (obj_get (byId w) pid) ''deploy_target'' of
                                   Inr (Some t) \<Rightarrow>
                                     if t \<noteq> [] then [''configure deploy: '' @ t] else []
                                 | _ \<Rightarrow> []) else [])
                      @ (if ty = Some ''webhook''
                         then [''validate signing secret and subscribe events'',
                               ''provision DLQ and retries''] else [])
                      @ (if truthy (obj_get (appsById w) pid)
                         then [''prepare app release pipeline''] else [])\<rparr>))"
  by (simp add: plan_project_def Let_def split: sum.splits)

lemma obj_get_last_wins:
  assumes "\<forall>r'\<in>set post. project_key r' \<noteq> project_key r"
  shows "obj_get (index_by_id (pre @ r # post)) (project_key r) = Own r"
  by (simp add: obj_get_def index_last_wins[OF assms])

lemma plan_loop_members:
  "plan_loop w ids = Inr ps \<Longrightarrow> \<forall>p\<in>set ps. plan_project w (projectId p) = Inr p"
proof (induction ids arbitrary: ps)
  case Nil
  then show ?case by simp
next
  case (Cons pid ids)
  then obtain p ps' where p: "plan_project w pid = Inr p" and ps': "plan_loop w ids = Inr ps'"
    and ps: "ps = p # ps'"
    by (auto split: sum.splits)
  have "projectId p = pid"
    using p by (rule plan_project_id)
  then show ?case
    using p Cons.IH [OF ps'] by (simp add: ps)
qed

lemma obj_get_empty:
  "k \<notin> set object_prototype_names \<Longrightarrow> obj_get (index_by_id []) k = Undefined"
  by (simp add: obj_get_def index_by_id_def fromEntries_def)

lemma row_check_undefined:
  "row_check k Undefined keys = \<lparr>kind = k, ok = False, details = []\<rparr>"
proof -
  have "pick Map.empty keys = []"
    unfolding pick_def by (induction keys) simp_all
  then show ?thesis
    by (simp add: row_check_def truthy_def or_empty_def row_details_def)
qed

subsection \<open>What planning reads\<close>

lemma required_plain:
  "name \<in> set requiredFiles \<Longrightarrow>
     CHR ''/'' \<notin> set name \<and> name \<noteq> [] \<and> name \<noteq> ''.'' \<and> name \<noteq> ''..'' \<and> name \<noteq> ''.env''"
proof -
  have "list_all (\<lambda>n. CHR ''/'' \<notin> set n \<and> n \<noteq> [] \<and> n \<noteq> ''.'' \<and> n \<noteq> ''..'' \<and> n \<noteq> ''.env'')
      requiredFiles"
    by (simp add: requiredFiles_def)
  then show "name \<in> set requiredFiles \<Longrightarrow>
     CHR ''/'' \<notin> set name \<and> name \<noteq> [] \<and> name \<noteq> ''.'' \<and> name \<noteq> ''..'' \<and> name \<noteq> ''.env''"
    unfolding list_all_iff by (rule bspec)
qed

lemma csv_path_last:
  assumes "name \<in> set requiredFiles"
  shows "path_join base [name] \<noteq> [] \<and> last (path_join base [name]) = name"
  using last_path_join [of name base "[]"] required_plain [OF assms] by simp

lemma env_path_last:
  "envPathForProject w pid \<noteq> [] \<and> last (envPathForProject w pid) = ''.env''"
  using last_path_join [of "''.env''" "cwd w" "[''secrets'', pid]"]
  by (simp add: envPathForProject_def)

lemma env_path_not_csv:
  assumes "name \<in> set requiredFiles"
  shows "envPathForProject w pid \<noteq> path_join base [name]"
proof
  assume eq: "envPathForProject w pid = path_join base [name]"
  have "name = last (path_join base [name])"
    using csv_path_last [OF assms, of base] by simp
  also have "\<dots> = last (envPathForProject w pid)"
    by (simp only: eq)
  also have "\<dots> = ''.env''"
    using env_path_last [of w pid] by simp
  finally show False
    using required_plain [OF assms] by simp
qed

lemma csv_path_inj:
  assumes "n1 \<in> set requiredFiles" and "n2 \<in> set requiredFiles"
    and "path_join base [n1] = path_join base [n2]"
  shows "n1 = n2"
proof -
  have "n1 = last (path_join base [n1])"
    using csv_path_last [OF assms(1), of base] by simp
  also have "\<dots> = last (path_join base [n2])"
    by (simp only: assms(3))
  also have "\<dots> = n2"
    using csv_path_last [OF assms(2), of base] by simp
  finally show ?thesis .
qed

lemma fileExists_cong: "lookup w1 p = lookup w2 p \<Longrightarrow> fileExists w1 p = fileExists w2 p"
  by (simp add: fileExists_def cong: option.case_cong)

lemma read_rows_cong:
  assumes "cwd w1 = cwd w2"
    and "lookup w1 (path_join (cwd w2) [name]) = lookup w2 (path_join (cwd w2) [name])"
  shows "read_rows w1 name = read_rows w2 name"
  using assms by (simp add: read_rows_def readCsvSync_def readFile_def cong: option.case_cong)

lemma loadEnv_cong:
  assumes "cwd w1 = cwd w2"
    and "lookup w1 (envPathForProject w2 pid) = lookup w2 (envPathForProject w2 pid)"
  shows "loadEnvIfExists w1 pid = loadEnvIfExists w2 pid"
proof -
  have "envPathForProject w1 pid = envPathForProject w2 pid"
    using assms(1) by (simp add: envPathForProject_def)
  then show ?thesis
    using assms(2)
    by (simp add: loadEnvIfExists_def fileExists_def readFile_def Let_def cong: option.case_cong)
qed

lemma plan_project_cong:
  assumes "obj_get (byId w1) pid = obj_get (byId w2) pid"
    and "obj_get (testsById w1) pid = obj_get (testsById w2) pid"
    and "obj_get (sitesById w1) pid = obj_get (sitesById w2) pid"
    and "obj_get (hooksById w1) pid = obj_get (hooksById w2) pid"
    and "obj_get (appsById w1) pid = obj_get (appsById w2) pid"
    and "loadEnvIfExists w1 pid = loadEnvIfExists w2 pid"
  shows "plan_project w1 pid = plan_project w2 pid"
  unfolding plan_project_shape assms ..

lemma plan_loop_cong:
  "\<forall>pid\<in>set ids. plan_project w1 pid = plan_project w2 pid \<Longrightarrow>
     plan_loop w1 ids = plan_loop w2 ids"
  by (induction ids) (simp_all cong: sum.case_cong)

lemma indexes_cong:
  assumes "\<forall>name\<in>set requiredFiles. read_rows w1 name = read_rows w2 name"
  shows "byId w1 = byId w2" and "testsById w1 = testsById w2" and "sitesById w1 = sitesById w2"
    and "hooksById w1 = hooksById w2" and "appsById w1 = appsById w2"
    and "projectIds w1 = projectIds w2"
  using assms
  by (simp_all add: byId_def testsById_def sitesById_def hooksById_def appsById_def
      projectIds_def requiredFiles_def)

lemma lookup_remove_node:
  "lookup (remove_node w p) q = (if q = p \<and> p \<noteq> [] then None else lookup w q)"
  by (simp add: remove_node_def lookup_def)

lemma same_names_cases:
  assumes "same_names a b"
  obtains "a = b"
  | f g where "a = Some (File f)" and "b = Some (File g)"
      and "map fst (dotenv f) = map fst (dotenv g)"
  using assms unfolding same_names_def
  by (auto split: option.splits node.splits)

lemma same_names_env:
  assumes "cwd w1 = cwd w2"
    and "same_names (lookup w1 (envPathForProject w2 pid)) (lookup w2 (envPathForProject w2 pid))"
  shows "loadEnvIfExists w1 pid = loadEnvIfExists w2 pid"
  using assms(2)
proof (rule same_names_cases)
  assume "lookup w1 (envPathForProject w2 pid) = lookup w2 (envPathForProject w2 pid)"
  with assms(1) show ?thesis
    by (rule loadEnv_cong)
next
  fix f g
  assume "lookup w1 (envPathForProject w2 pid) = Some (File f)"
    and "lookup w2 (envPathForProject w2 pid) = Some (File g)"
    and "map fst (dotenv f) = map fst (dotenv g)"
  moreover have "envPathForProject w1 pid = envPathForProject w2 pid"
    using assms(1) by (simp add: envPathForProject_def)
  ultimately show ?thesis
    by (simp add: loadEnvIfExists_def fileExists_def readFile_def Let_def object_keys_def
        split: option.splits)
qed

lemma summary_cong:
  assumes "cwd w1 = cwd w2"
    and "\<forall>name\<in>set requiredFiles.
           fileExists w1 (path_join (cwd w2) [name]) = fileExists w2 (path_join (cwd w2) [name])"
    and "projectIds w1 = projectIds w2"
  shows "make_summary w1 ps = make_summary w2 ps"
proof -
  have "present_files w1 = present_files w2"
    unfolding present_files_def assms(1) using assms(2) by (intro filter_cong refl) simp
  then show ?thesis
    by (simp add: make_summary_def missing_def assms(3))
qed

lemma main_dry_cong:
  assumes "isDryRun (drop 2 argv)"
    and "make_summary w1 = make_summary w2"
    and "plan_loop w1 (projectIds w1) = plan_loop w2 (projectIds w2)"
  shows "snd (main argv w1) = snd (main argv w2)"
  using assms by (simp add: main_def split: sum.splits)

lemma secondary_required: "n \<in> set secondaryFiles \<Longrightarrow> n \<in> set requiredFiles"
  by (simp add: secondaryFiles_def requiredFiles_def)

lemma manifest_required: "''PROJECTS_MANIFEST.csv'' \<in> set requiredFiles"
  by (simp add: requiredFiles_def)

lemma manifest_not_secondary: "''PROJECTS_MANIFEST.csv'' \<notin> set secondaryFiles"
  by (simp add: secondaryFiles_def)

lemma required_cases:
  "n \<in> set requiredFiles \<Longrightarrow> n = ''PROJECTS_MANIFEST.csv'' \<or> n \<in> set secondaryFiles"
  by (simp add: secondaryFiles_def requiredFiles_def)

lemma obj_get_cong: "map_of ob1 k = map_of ob2 k \<Longrightarrow> obj_get ob1 k = obj_get ob2 k"
  by (simp add: obj_get_def)

subsection \<open>Running twice\<close>

lemma grows_read_rows:
  assumes "grows w w'"
  shows "read_rows w' name = read_rows w name"
proof -
  have cwd: "cwd w' = cwd w"
    using assms by (simp add: grows_def)
  have "lookup w' (path_join (cwd w) [name]) = lookup w (path_join (cwd w) [name])
      \<or> (lookup w (path_join (cwd w) [name]) = None
          \<and> lookup w' (path_join (cwd w) [name]) = Some Dir)"
    using assms by (simp add: grows_def)
  then show ?thesis
    by (auto simp: read_rows_def readCsvSync_def readFile_def cwd split: option.splits)
qed

lemma main_grows: "grows w (fst (main argv w))"
proof (cases "plan_loop w (projectIds w)")
  case (Inl e)
  then show ?thesis
    by (simp add: main_def grows_refl)
next
  case (Inr ps)
  show ?thesis
  proof (cases "isDryRun (drop 2 argv)")
    case True
    then show ?thesis
      using Inr by (simp add: main_def grows_refl)
  next
    case False
    obtain w' r where run: "ensure_dirs w (apply_dirs w) = (w', r)"
      by (cases "ensure_dirs w (apply_dirs w)")
    then have "fst (main argv w) = w'"
      using Inr False by (simp add: main_def split: option.splits)
    then show ?thesis
      using ensure_dirs_grows [OF run] by simp
  qed
qed

lemma apply_demo:
  "main (script_argv [''--apply'']) demo_world =
     (demo_world\<lparr>nodes := (nodes demo_world)
        ([''work'', ''secrets''] \<mapsto> Dir, [''work'', ''content''] \<mapsto> Dir,
         [''work'', ''assets''] \<mapsto> Dir, [''work'', ''imports''] \<mapsto> Dir,
         [''work'', ''secrets'', ''demo1''] \<mapsto> Dir, [''work'', ''content'', ''demo1''] \<mapsto> Dir,
         [''work'', ''assets'', ''demo1''] \<mapsto> Dir)\<rparr>,
      Inr (ApplyMessage
        ''Apply step ensured base directories. Next steps: repo cloning and scaffolding.''))"
  by (simp add: sample_defs path_defs disk_defs object_defs plan_defs run_defs)

lemma make_dirs_changes:
  "make_dirs w p = Inr w' \<Longrightarrow> lookup w' q \<noteq> lookup w q \<Longrightarrow> q \<noteq> [] \<and> set q \<subseteq> set p"
proof (induction w p arbitrary: w' rule: make_dirs.induct)
  case (1 w p)
  show ?case
  proof (cases "lookup w p")
    case None
    then obtain w0 where w0: "make_dirs w (butlast p) = Inr w0"
      and w': "w' = w0\<lparr>nodes := (nodes w0)(p \<mapsto> Dir)\<rparr>"
      using "1.prems"(1) by (subst (asm) make_dirs.simps) (auto split: sum.splits)
    have p: "p \<noteq> []"
      using None by (rule lookup_absent_nonroot)
    show ?thesis
    proof (cases "q = p")
      case True
      then show ?thesis using p by simp
    next
      case False
      then have "lookup w0 q \<noteq> lookup w q"
        using "1.prems"(2) by (simp add: w' lookup_update [OF p])
      then have "q \<noteq> [] \<and> set q \<subseteq> set (butlast p)"
        using "1.IH" [OF None w0] by simp
      then show ?thesis
        by (auto dest: in_set_butlastD)
    qed
  next
    case (Some n)
    then have "w' = w"
      using "1.prems"(1) by (subst (asm) make_dirs.simps) (auto split: node.splits)
    then show ?thesis
      using "1.prems"(2) by simp
  qed
qed

lemma mkdir_changes:
  "mkdir w p = Inr w' \<Longrightarrow> lookup w' q \<noteq> lookup w q \<Longrightarrow> q \<noteq> [] \<and> set q \<subseteq> set p"
  using make_dirs_changes [of w p w' q] by (simp add: mkdir_def split: option.splits)

lemma ensure_dirs_changes:
  "ensure_dirs w ps = (w', r) \<Longrightarrow> lookup w' q \<noteq> lookup w q \<Longrightarrow>
     \<exists>p\<in>set ps. q \<noteq> [] \<and> set q \<subseteq> set p"
proof (induction ps arbitrary: w)
  case Nil
  then show ?case by simp
next
  case (Cons p ps)
  show ?case
  proof (cases "mkdir w p")
    case (Inl e)
    then show ?thesis using Cons.prems by simp
  next
    case (Inr w0)
    then have rest: "ensure_dirs w0 ps = (w', r)"
      using Cons.prems(1) by simp
    show ?thesis
    proof (cases "lookup w0 q = lookup w q")
      case True
      then have "lookup w' q \<noteq> lookup w0 q"
        using Cons.prems(2) by simp
      then show ?thesis
        using Cons.IH [OF rest] by simp
    next
      case False
      then show ?thesis
        using mkdir_changes [OF Inr] by simp
    qed
  qed
qed

lemma set_norm_step: "set (norm_step acc seg) \<subseteq> set acc \<union> {seg}"
  by (auto simp: norm_step_def dest: in_set_butlastD)

lemma set_foldl_norm_step: "set (foldl norm_step acc segs) \<subseteq> set acc \<union> set segs"
proof (induction segs arbitrary: acc)
  case Nil
  then show ?case by simp
next
  case (Cons seg segs)
  show ?case
    using Cons.IH [of "norm_step acc seg"] set_norm_step [of acc seg] by auto
qed

lemma set_path_join:
  "set (path_join base segs) \<subseteq> set base \<union> (\<Union>seg\<in>set segs. set (split_slash seg))"
  using set_foldl_norm_step [of base "concat (map split_slash segs)"]
  by (simp add: path_join_def)

subsection \<open>The two modes\<close>

lemma main_modes:
  "main argv w = (if isDryRun (drop 2 argv) then dry_run w else apply_run w)"
  by (simp add: main_def dry_run_def apply_run_def apply_message_def split: sum.splits)

lemma modes_differ:
  assumes "plan_loop w (projectIds w) = Inr ps"
  shows "dry_run w \<noteq> apply_run w"
  using assms by (simp add: dry_run_def apply_run_def split: prod.splits option.splits)

lemma main_disk:
  "fst (main argv w) = w \<or> fst (main argv w) = fst (ensure_dirs w (apply_dirs w))"
  by (simp add: main_def split: sum.splits prod.splits option.splits)

lemma base_dirs_planned: "d \<in> set toEnsure \<Longrightarrow> path_join (cwd w) [d] \<in> set (apply_dirs w)"
  by (simp add: apply_dirs_def)

lemma project_dirs_planned:
  "pid \<in> set (projectIds w) \<Longrightarrow> p \<in> set (project_dirs w pid) \<Longrightarrow> p \<in> set (apply_dirs w)"
  unfolding apply_dirs_def set_append set_concat set_map by (intro UnI2 UN_I) simp_all

lemma apply_dirs_grows:
  assumes "grows w w'"
  shows "apply_dirs w' = apply_dirs w"
proof -
  have cwd: "cwd w' = cwd w"
    using assms by (simp add: grows_def)
  have "\<forall>name\<in>set requiredFiles. read_rows w' name = read_rows w name"
    using grows_read_rows [OF assms] by simp
  note ix = indexes_cong [OF this]
  show ?thesis
    by (simp add: apply_dirs_def project_dirs_def cwd ix(6) cong: map_cong)
qed

section \<open>The claims\<close>

subsection \<open>C1: one plan per identifier, in the order of \<open>Object.keys\<close>\<close>

text \<open>
  C1 says that the plans of the dry-run document follow the order of the identifiers'
  rows in the manifest. The loop runs over \<open>Object.keys(byId)\<close>, which lists keys that
  are array indices first and in numeric order: a manifest with the rows \<open>2\<close> and \<open>1\<close>
  is planned as \<open>1\<close>, \<open>2\<close>.
\<close>

theorem C1_numeric_ids_reordered:
  "readCsvSync numeric_world (path_join (cwd numeric_world) [''PROJECTS_MANIFEST.csv''])
     = Inr numeric_rows
   \<and> manifest_order numeric_rows = [''2'', ''1'']
   \<and> printed_ids (main (script_argv []) numeric_world) = Some [''1'', ''2'']
   \<and> printed_ids (main (script_argv []) numeric_world) \<noteq> Some (manifest_order numeric_rows)"
  by (simp add: sample_defs path_defs disk_defs object_defs plan_defs manifest_order_def)

text \<open>
  C1, amended: when the manifest parses and no secrets path of a project is a directory,
  the dry run prints a document with exactly one plan per distinct identifier of the
  manifest, whatever the secondary CSVs hold. The plans of identifiers that are array
  indices come first, in ascending numeric order, then the plans of the other
  identifiers in the order of their first rows; a manifest without array-index
  identifiers is planned in manifest order.
\<close>

theorem C1_plans_follow_object_keys:
  assumes "isDryRun (drop 2 argv)"
    and "readCsvSync w (path_join (cwd w) [''PROJECTS_MANIFEST.csv'']) = Inr rows"
    and "\<forall>r\<in>set rows. lookup w (envPathForProject w (project_key r)) \<noteq> Some Dir"
  shows "\<exists>s. main argv w = (w, Inr (PlanDoc s))
      \<and> map projectId (plans s) =
          sort_key index_value (filter is_array_index (manifest_order rows))
          @ filter (\<lambda>k. \<not> is_array_index k) (manifest_order rows)
      \<and> distinct (map projectId (plans s))
      \<and> set (map projectId (plans s)) = project_key ` set rows
      \<and> ((\<forall>r\<in>set rows. \<not> is_array_index (project_key r))
           \<longrightarrow> map projectId (plans s) = manifest_order rows)"
proof -
  have rows: "read_rows w ''PROJECTS_MANIFEST.csv'' = rows"
    using assms(2) by (rule read_rows_ok)
  have "\<forall>pid\<in>set (projectIds w). \<exists>p. plan_project w pid = Inr p"
  proof
    fix pid assume pid: "pid \<in> set (projectIds w)"
    then obtain r where "r \<in> set rows" "pid = project_key r"
      by (auto simp: set_projectIds rows)
    then have "lookup w (envPathForProject w pid) \<noteq> Some Dir"
      using assms(3) by simp
    then show "\<exists>p. plan_project w pid = Inr p"
      using projectIds_own[OF pid] by (simp add: plan_project_ok)
  qed
  then obtain ps where ps: "plan_loop w (projectIds w) = Inr ps"
    using plan_loop_ok by blast
  have ids: "map projectId ps = projectIds w"
    using ps by (rule plan_loop_ids)
  have m: "main argv w = (w, Inr (PlanDoc (make_summary w ps)))"
    using assms(1) ps by (simp add: main_def)
  have plain: "(\<forall>r\<in>set rows. \<not> is_array_index (project_key r)) \<longrightarrow> projectIds w = manifest_order rows"
  proof
    assume "\<forall>r\<in>set rows. \<not> is_array_index (project_key r)"
    then have "\<forall>k\<in>set (manifest_order rows). \<not> is_array_index k"
      by (auto simp: set_manifest_order)
    then have "filter is_array_index (manifest_order rows) = []"
      and "filter (\<lambda>k. \<not> is_array_index k) (manifest_order rows) = manifest_order rows"
      by (simp_all add: filter_empty_conv)
    then show "projectIds w = manifest_order rows"
      by (simp add: projectIds_eq rows)
  qed
  show ?thesis
    using m ids plain distinct_projectIds[of w] set_projectIds[of w] projectIds_eq[of w]
    by (intro exI[of _ "make_summary w ps"]) (simp add: make_summary_def rows)
qed

theorem C1_plans_follow_object_keys_witness:
  "(isDryRun (drop 2 (script_argv []))
   \<and> readCsvSync numeric_world (path_join (cwd numeric_world) [''PROJECTS_MANIFEST.csv''])
       = Inr numeric_rows
   \<and> lookup numeric_world (envPathForProject numeric_world ''2'') \<noteq> Some Dir
   \<and> lookup numeric_world (envPathForProject numeric_world ''1'') \<noteq> Some Dir
   \<and> (\<exists>s. main (script_argv []) numeric_world = (numeric_world, Inr (PlanDoc s))
        \<and> map projectId (plans s) = [''1'', ''2'']))
   \<and> (isDryRun (drop 2 (script_argv []))
   \<and> readCsvSync letters_world (path_join (cwd letters_world) [''PROJECTS_MANIFEST.csv''])
       = Inr letters_rows
   \<and> map project_key letters_rows = [''b'', ''a'', ''b'']
   \<and> \<not> is_array_index ''a'' \<and> \<not> is_array_index ''b''
   \<and> (\<exists>s. main (script_argv []) letters_world = (letters_world, Inr (PlanDoc s))
        \<and> map projectId (plans s) = [''b'', ''a'']))"
proof (rule conjI)
  show "isDryRun (drop 2 (script_argv []))
   \<and> readCsvSync numeric_world (path_join (cwd numeric_world) [''PROJECTS_MANIFEST.csv''])
       = Inr numeric_rows
   \<and> lookup numeric_world (envPathForProject numeric_world ''2'') \<noteq> Some Dir
   \<and> lookup numeric_world (envPathForProject numeric_world ''1'') \<noteq> Some Dir
   \<and> (\<exists>s. main (script_argv []) numeric_world = (numeric_world, Inr (PlanDoc s))
        \<and> map projectId (plans s) = [''1'', ''2''])"
  proof -
    have dry: "isDryRun (drop 2 (script_argv []))"
      by (simp add: script_argv_def isDryRun_def)
    have manifest: "readCsvSync numeric_world
        (path_join (cwd numeric_world) [''PROJECTS_MANIFEST.csv'']) = Inr numeric_rows"
      by (simp add: numeric_world_def csv_file_def path_defs disk_defs)
    have env2: "lookup numeric_world (envPathForProject numeric_world ''2'') \<noteq> Some Dir"
      by (simp add: numeric_world_def path_defs lookup_def)
    have env1: "lookup numeric_world (envPathForProject numeric_world ''1'') \<noteq> Some Dir"
      by (simp add: numeric_world_def path_defs lookup_def)
    have no_dir: "\<forall>r\<in>set numeric_rows.
        lookup numeric_world (envPathForProject numeric_world (project_key r)) \<noteq> Some Dir"
      using env1 env2 by (simp add: numeric_rows_def project_key_def)
    have order: "manifest_order numeric_rows = [''2'', ''1'']"
      by (simp add: manifest_order_def numeric_rows_def project_key_def)
    have keys: "is_array_index ''1''" "is_array_index ''2''"
      "\<not> index_value ''2'' \<le> index_value ''1''"
      by (simp_all add: is_array_index_def is_digit_def index_value_def digit_val_def)
    from C1_plans_follow_object_keys [OF dry manifest no_dir]
    obtain s where s: "main (script_argv []) numeric_world = (numeric_world, Inr (PlanDoc s))
        \<and> map projectId (plans s) =
            sort_key index_value (filter is_array_index (manifest_order numeric_rows))
            @ filter (\<lambda>k. \<not> is_array_index k) (manifest_order numeric_rows)
        \<and> distinct (map projectId (plans s))
        \<and> set (map projectId (plans s)) = project_key ` set numeric_rows
        \<and> ((\<forall>r\<in>set numeric_rows. \<not> is_array_index (project_key r))
             \<longrightarrow> map projectId (plans s) = manifest_order numeric_rows)" ..
    have printed: "main (script_argv []) numeric_world = (numeric_world, Inr (PlanDoc s))"
      using s by (rule conjunct1)
    have "map projectId (plans s) =
            sort_key index_value (filter is_array_index (manifest_order numeric_rows))
            @ filter (\<lambda>k. \<not> is_array_index k) (manifest_order numeric_rows)"
      using s by (elim conjE)
    then have ids: "map projectId (plans s) = [''1'', ''2'']"
      unfolding order by (simp add: keys)
    have "\<exists>s. main (script_argv []) numeric_world = (numeric_world, Inr (PlanDoc s))
          \<and> map projectId (plans s) = [''1'', ''2'']"
      using printed ids by (intro exI[of _ s] conjI)
    then show ?thesis
      by (intro conjI dry manifest env1 env2)
  qed
  show "isDryRun (drop 2 (script_argv []))
   \<and> readCsvSync letters_world (path_join (cwd letters_world) [''PROJECTS_MANIFEST.csv''])
       = Inr letters_rows
   \<and> map project_key letters_rows = [''b'', ''a'', ''b'']
   \<and> \<not> is_array_index ''a'' \<and> \<not> is_array_index ''b''
   \<and> (\<exists>s. main (script_argv []) letters_world = (letters_world, Inr (PlanDoc s))
        \<and> map projectId (plans s) = [''b'', ''a''])"
  proof -
    have dry: "isDryRun (drop 2 (script_argv []))"
      by (simp add: script_argv_def isDryRun_def)
    have manifest: "readCsvSync letters_world
        (path_join (cwd letters_world) [''PROJECTS_MANIFEST.csv'']) = Inr letters_rows"
      by (simp add: letters_world_def csv_file_def path_defs disk_defs)
    have keys: "map project_key letters_rows = [''b'', ''a'', ''b'']"
      by (simp add: letters_rows_def project_key_def)
    have plain: "\<not> is_array_index ''a''" "\<not> is_array_index ''b''"
      by (simp_all add: is_array_index_def is_digit_def)
    have no_dir: "\<forall>r\<in>set letters_rows.
        lookup letters_world (envPathForProject letters_world (project_key r)) \<noteq> Some Dir"
      by (simp add: letters_world_def letters_rows_def project_key_def path_defs lookup_def)
    have order: "manifest_order letters_rows = [''b'', ''a'']"
      by (simp add: manifest_order_def keys)
    have all_plain: "\<forall>r\<in>set letters_rows. \<not> is_array_index (project_key r)"
      using plain by (simp add: letters_rows_def project_key_def)
    from C1_plans_follow_object_keys [OF dry manifest no_dir]
    obtain s where s: "main (script_argv []) letters_world = (letters_world, Inr (PlanDoc s))
        \<and> map projectId (plans s) =
            sort_key index_value (filter is_array_index (manifest_order letters_rows))
            @ filter (\<lambda>k. \<not> is_array_index k) (manifest_order letters_rows)
        \<and> distinct (map projectId (plans s))
        \<and> set (map projectId (plans s)) = project_key ` set letters_rows
        \<and> ((\<forall>r\<in>set letters_rows. \<not> is_array_index (project_key r))
             \<longrightarrow> map projectId (plans s) = manifest_order letters_rows)" ..
    have printed: "main (script_argv []) letters_world = (letters_world, Inr (PlanDoc s))"
      using s by (rule conjunct1)
    have "(\<forall>r\<in>set letters_rows. \<not> is_array_index (project_key r))
             \<longrightarrow> map projectId (plans s) = manifest_order letters_rows"
      using s by (elim conjE)
    then have ids: "map projectId (plans s) = [''b'', ''a'']"
      using all_plain unfolding order by (rule mp)
    have "\<exists>s. main (script_argv []) letters_world = (letters_world, Inr (PlanDoc s))
          \<and> map projectId (plans s) = [''b'', ''a'']"
      using printed ids by (intro exI[of _ s] conjI)
    then show ?thesis
      by (intro conjI dry manifest keys plain)
  qed
qed

subsection \<open>C2: the mode flag\<close>

text \<open>
  C2 says that the planner runs in apply mode exactly when the argument list contains
  \<open>--apply\<close>. The script tests \<open>--dry-run\<close> first: with both flags on the command
  line \<open>main\<close> plans the demo project, prints the plan document and leaves the disk as
  it was, although \<open>--apply\<close> is among the arguments.
\<close>

theorem C2_both_flags_dry_run:
  "''--apply'' \<in> set (drop 2 (script_argv [''--apply'', ''--dry-run'']))
   \<and> main (script_argv [''--apply'', ''--dry-run'']) demo_world = dry_run demo_world
   \<and> main (script_argv [''--apply'', ''--dry-run'']) demo_world \<noteq> apply_run demo_world
   \<and> fst (main (script_argv [''--apply'', ''--dry-run'']) demo_world) = demo_world
   \<and> printed_ids (main (script_argv [''--apply'', ''--dry-run'']) demo_world) = Some [''demo1'']"
proof -
  let ?argv = "script_argv [''--apply'', ''--dry-run'']"
  have flag: "''--apply'' \<in> set (drop 2 ?argv)"
    by (simp add: script_argv_def)
  have dry: "isDryRun (drop 2 ?argv)"
    by (simp add: script_argv_def isDryRun_def)
  then have run: "main ?argv demo_world = dry_run demo_world"
    by (simp add: main_modes)
  have ids: "printed_ids (dry_run demo_world) = Some [''demo1'']"
    by (simp add: dry_run_def sample_defs path_defs disk_defs object_defs plan_defs)
  have disk: "fst (dry_run demo_world) = demo_world"
    by (simp add: dry_run_def split: sum.splits)
  have "\<exists>ps. plan_loop demo_world (projectIds demo_world) = Inr ps"
    by (simp add: sample_defs path_defs disk_defs object_defs plan_defs)
  then have "dry_run demo_world \<noteq> apply_run demo_world"
    using modes_differ by (elim exE)
  then show ?thesis
    unfolding run by (intro conjI flag refl disk ids)
qed

text \<open>
  C2, amended: \<open>main\<close> runs in apply mode exactly when the arguments after the script
  name contain \<open>--apply\<close> and do not contain \<open>--dry-run\<close>; with every other argument
  list, with \<open>--dry-run\<close> or with no flag at all, it makes a dry run. Whenever planning
  succeeds the two modes differ in what they do: the dry run leaves the disk and prints
  the plan document, the run in apply mode leaves the disk that creating the
  directories leaves and never prints the plan document.
\<close>

theorem C2_apply_mode:
  "main argv w =
     (if ''--apply'' \<in> set (drop 2 argv) \<and> ''--dry-run'' \<notin> set (drop 2 argv)
      then apply_run w else dry_run w)
   \<and> (\<forall>ps. plan_loop w (projectIds w) = Inr ps \<longrightarrow>
         (main argv w = apply_run w)
           = (''--apply'' \<in> set (drop 2 argv) \<and> ''--dry-run'' \<notin> set (drop 2 argv))
         \<and> (main argv w = (w, Inr (PlanDoc (make_summary w ps))))
           = (\<not> (''--apply'' \<in> set (drop 2 argv) \<and> ''--dry-run'' \<notin> set (drop 2 argv)))
         \<and> (fst (main argv w) = fst (ensure_dirs w (apply_dirs w))
              \<and> (\<forall>s. snd (main argv w) \<noteq> Inr (PlanDoc s)))
           = (''--apply'' \<in> set (drop 2 argv) \<and> ''--dry-run'' \<notin> set (drop 2 argv)))"
proof -
  have flags: "isDryRun (drop 2 argv)
      = (\<not> (''--apply'' \<in> set (drop 2 argv) \<and> ''--dry-run'' \<notin> set (drop 2 argv)))"
    by (auto simp: isDryRun_def)
  have modes: "main argv w =
     (if ''--apply'' \<in> set (drop 2 argv) \<and> ''--dry-run'' \<notin> set (drop 2 argv)
      then apply_run w else dry_run w)"
    unfolding main_modes flags by simp
  have iff: "\<forall>ps. plan_loop w (projectIds w) = Inr ps \<longrightarrow>
         (main argv w = apply_run w)
           = (''--apply'' \<in> set (drop 2 argv) \<and> ''--dry-run'' \<notin> set (drop 2 argv))
         \<and> (main argv w = (w, Inr (PlanDoc (make_summary w ps))))
           = (\<not> (''--apply'' \<in> set (drop 2 argv) \<and> ''--dry-run'' \<notin> set (drop 2 argv)))
         \<and> (fst (main argv w) = fst (ensure_dirs w (apply_dirs w))
              \<and> (\<forall>s. snd (main argv w) \<noteq> Inr (PlanDoc s)))
           = (''--apply'' \<in> set (drop 2 argv) \<and> ''--dry-run'' \<notin> set (drop 2 argv))"
  proof (intro allI impI)
    fix ps assume ps: "plan_loop w (projectIds w) = Inr ps"
    have differ: "dry_run w \<noteq> apply_run w"
      using ps by (rule modes_differ)
    have dry: "dry_run w = (w, Inr (PlanDoc (make_summary w ps)))"
      using ps by (simp add: dry_run_def)
    have disk: "fst (apply_run w) = fst (ensure_dirs w (apply_dirs w))"
      using ps by (simp add: apply_run_def split: prod.splits option.splits)
    have silent: "snd (apply_run w) \<noteq> Inr (PlanDoc s)" for s
      using ps by (simp add: apply_run_def split: prod.splits option.splits)
    show "(main argv w = apply_run w)
           = (''--apply'' \<in> set (drop 2 argv) \<and> ''--dry-run'' \<notin> set (drop 2 argv))
         \<and> (main argv w = (w, Inr (PlanDoc (make_summary w ps))))
           = (\<not> (''--apply'' \<in> set (drop 2 argv) \<and> ''--dry-run'' \<notin> set (drop 2 argv)))
         \<and> (fst (main argv w) = fst (ensure_dirs w (apply_dirs w))
              \<and> (\<forall>s. snd (main argv w) \<noteq> Inr (PlanDoc s)))
           = (''--apply'' \<in> set (drop 2 argv) \<and> ''--dry-run'' \<notin> set (drop 2 argv))"
    proof (cases "''--apply'' \<in> set (drop 2 argv) \<and> ''--dry-run'' \<notin> set (drop 2 argv)")
      case True
      then have run: "main argv w = apply_run w"
        unfolding modes by (rule if_P)
      show ?thesis
        unfolding run using True differ disk silent by (simp add: dry [symmetric] neq_commute)
    next
      case False
      then have run: "main argv w = dry_run w"
        unfolding modes by (rule if_not_P)
      show ?thesis
        unfolding run using False differ by (simp add: dry)
    qed
  qed
  show ?thesis
    by (intro conjI modes iff)
qed

theorem C2_apply_mode_witness:
  "map_sum id (map projectId) (plan_loop demo_world (projectIds demo_world)) = Inr [''demo1'']
   \<and> main (script_argv [''--apply'']) demo_world = apply_run demo_world
   \<and> snd (main (script_argv [''--apply'']) demo_world) = Inr (ApplyMessage apply_message)
   \<and> main (script_argv [''--dry-run'']) demo_world = dry_run demo_world
   \<and> main (script_argv []) demo_world = dry_run demo_world
   \<and> printed_ids (main (script_argv []) demo_world) = Some [''demo1'']"
proof -
  have planned: "map_sum id (map projectId) (plan_loop demo_world (projectIds demo_world))
      = Inr [''demo1'']"
    by (simp add: sample_defs path_defs disk_defs object_defs plan_defs)
  have a: "main (script_argv [''--apply'']) demo_world = apply_run demo_world"
    using C2_apply_mode [of "script_argv [''--apply'']" demo_world]
    by (simp add: script_argv_def)
  have b: "main (script_argv [''--dry-run'']) demo_world = dry_run demo_world"
    using C2_apply_mode [of "script_argv [''--dry-run'']" demo_world]
    by (simp add: script_argv_def)
  have c: "main (script_argv []) demo_world = dry_run demo_world"
    using C2_apply_mode [of "script_argv []" demo_world]
    by (simp add: script_argv_def)
  have msg: "snd (main (script_argv [''--apply'']) demo_world) = Inr (ApplyMessage apply_message)"
    unfolding apply_demo by (simp add: apply_message_def)
  have ids: "printed_ids (main (script_argv []) demo_world) = Some [''demo1'']"
    by (simp add: sample_defs path_defs disk_defs object_defs plan_defs)
  show ?thesis
    by (intro conjI planned a msg b c ids)
qed

subsection \<open>C3: the end-to-end scenario\<close>

text \<open>
  C3 says that in the scenario of project \<open>demo1\<close> the env check fails with empty details.
  The check carries the whole result of \<open>loadEnvIfExists\<close>: the path of the secrets file,
  \<open>present\<close> and the empty list \<open>vars\<close>.
\<close>

theorem C3_env_details_not_empty:
  "printed_check (main (script_argv []) demo_world) ''demo1'' ''env'' =
     Some \<lparr>kind = ''env'', ok = False,
           details = [(''envPath'', JStr ''/work/secrets/demo1/.env''),
                      (''present'', JBool False), (''vars'', JStrs [])]\<rparr>
   \<and> map_option details (printed_check (main (script_argv []) demo_world) ''demo1'' ''env'') \<noteq> Some []"
  by (simp add: sample_defs path_defs disk_defs object_defs plan_defs)

text \<open>
  C3, amended: with a manifest of the single row \<open>demo1\<close>, \<open>html_site\<close>, \<open>vercel\<close>, a
  sites CSV of the single row \<open>demo1\<close>, \<open>vite\<close>, \<open>en\<close>, and no secrets file, the dry run
  prints one plan. Its env check has \<open>ok = false\<close> and the details \<open>envPath\<close> (the
  path of the secrets file), \<open>present = false\<close> and \<open>vars = []\<close>; its \<open>html_row\<close> check
  has \<open>ok = true\<close> and the details \<open>build_tool = vite\<close>, \<open>i18n_locales = en\<close>; its
  actions are the scaffolding of the site and \<open>configure deploy: vercel\<close>, followed by
  the release pipeline when the apps index has a \<open>demo1\<close>.
\<close>

theorem C3_demo_plan:
  assumes "isDryRun (drop 2 argv)"
    and "readCsvSync w (path_join (cwd w) [''PROJECTS_MANIFEST.csv'']) = Inr [m]"
    and "m ''project_id'' = Some ''demo1''" and "m ''type'' = Some ''html_site''"
    and "m ''deploy_target'' = Some ''vercel''"
    and "readCsvSync w (path_join (cwd w) [''HTML_SITES.csv'']) = Inr [h]"
    and "h ''project_id'' = Some ''demo1''" and "h ''build_tool'' = Some ''vite''"
    and "h ''i18n_locales'' = Some ''en''"
    and "\<not> fileExists w (envPathForProject w ''demo1'')"
  shows "\<exists>s p. main argv w = (w, Inr (PlanDoc s)) \<and> totalProjects s = 1 \<and> plans s = [p]
      \<and> projectId p = ''demo1'' \<and> type p = Some ''html_site''
      \<and> checks p =
          [\<lparr>kind = ''env'', ok = False,
            details = [(''envPath'', JStr (path_string (envPathForProject w ''demo1''))),
                       (''present'', JBool False), (''vars'', JStrs [])]\<rparr>,
           \<lparr>kind = ''html_row'', ok = True,
            details = [(''build_tool'', JStr ''vite''), (''i18n_locales'', JStr ''en'')]\<rparr>]
      \<and> actions p =
          [''scaffold HTML site with chosen build tool'', ''configure deploy: vercel'']
          @ (if truthy (obj_get (appsById w) ''demo1'')
             then [''prepare app release pipeline''] else [])"
proof -
  have byId: "byId w = [(''demo1'', m)]"
    using assms(2,3) by (simp add: byId_def read_rows_def index_by_id_def fromEntries_def project_key_def)
  have sites: "sitesById w = [(''demo1'', h)]"
    using assms(6,7) by (simp add: sitesById_def read_rows_def index_by_id_def fromEntries_def project_key_def)
  have ids: "projectIds w = [''demo1'']"
    by (simp add: projectIds_def byId object_keys_def is_array_index_def is_digit_def)
  have env: "loadEnvIfExists w ''demo1'' =
      Inr \<lparr>envPath = path_string (envPathForProject w ''demo1''), present = False, vars = []\<rparr>"
    using assms(10) by (simp add: loadEnvIfExists_def)
  have "plan_project w ''demo1'' =
      Inr \<lparr>projectId = ''demo1'', type = Some ''html_site'',
           checks =
             [\<lparr>kind = ''env'', ok = False,
               details = [(''envPath'', JStr (path_string (envPathForProject w ''demo1''))),
                          (''present'', JBool False), (''vars'', JStrs [])]\<rparr>,
              \<lparr>kind = ''html_row'', ok = True,
               details = [(''build_tool'', JStr ''vite''), (''i18n_locales'', JStr ''en'')]\<rparr>],
           actions =
             [''scaffold HTML site with chosen build tool'', ''configure deploy: vercel'']
             @ (if truthy (obj_get (appsById w) ''demo1'')
                then [''prepare app release pipeline''] else [])\<rparr>"
    using assms(4,5,8,9)
    by (simp add: plan_project_def byId sites env obj_get_def field_def row_check_def truthy_def
        or_empty_def pick_def row_details_def env_details_def)
  then show ?thesis
    using assms(1) by (simp add: main_def ids make_summary_def)
qed

theorem C3_demo_plan_witness:
  "\<exists>s p. main (script_argv []) demo_world = (demo_world, Inr (PlanDoc s)) \<and> plans s = [p]
     \<and> checks p =
          [\<lparr>kind = ''env'', ok = False,
            details = [(''envPath'', JStr ''/work/secrets/demo1/.env''),
                       (''present'', JBool False), (''vars'', JStrs [])]\<rparr>,
           \<lparr>kind = ''html_row'', ok = True,
            details = [(''build_tool'', JStr ''vite''), (''i18n_locales'', JStr ''en'')]\<rparr>]
     \<and> actions p = [''scaffold HTML site with chosen build tool'', ''configure deploy: vercel'']"
proof -
  have dry: "isDryRun (drop 2 (script_argv []))"
    by (simp add: script_argv_def isDryRun_def)
  have manifest: "readCsvSync demo_world (path_join (cwd demo_world) [''PROJECTS_MANIFEST.csv''])
      = Inr [demo_manifest]"
    by (simp add: demo_world_def csv_file_def path_defs disk_defs)
  have sites: "readCsvSync demo_world (path_join (cwd demo_world) [''HTML_SITES.csv''])
      = Inr [demo_site]"
    by (simp add: demo_world_def csv_file_def path_defs disk_defs)
  have no_env: "\<not> fileExists demo_world (envPathForProject demo_world ''demo1'')"
    by (simp add: demo_world_def path_defs disk_defs)
  have env_path: "path_string (envPathForProject demo_world ''demo1'') = ''/work/secrets/demo1/.env''"
    by (simp add: demo_world_def path_defs)
  have no_app: "\<not> truthy (obj_get (appsById demo_world) ''demo1'')"
    by (simp add: demo_world_def csv_file_def path_defs disk_defs object_defs appsById_def)
  show ?thesis
    using C3_demo_plan [OF dry manifest _ _ _ sites _ _ _ no_env]
    by (auto simp: env_path no_app demo_manifest_def demo_site_def)
qed

subsection \<open>C4: only the primary manifest exists\<close>

text \<open>
  C4 says that with the four secondary CSVs absent every type-specific row check reports
  \<open>pass = false\<close>. The script tests \<open>!!testsById[projectId]\<close> on an object that inherits
  from \<open>Object.prototype\<close>: for a project named \<open>constructor\<close> the lookup finds the
  inherited member and the \<open>tests_row\<close> check passes, although no tests CSV exists.
\<close>

theorem C4_inherited_name_passes:
  "present_files ctor_world = [''PROJECTS_MANIFEST.csv'']
   \<and> missing ctor_world =
       [''PLAYWRIGHT_TESTS.csv'', ''WEBHOOKS.csv'', ''HTML_SITES.csv'', ''APPS.csv'']
   \<and> printed_check (main (script_argv []) ctor_world) ''constructor'' ''tests_row'' =
       Some \<lparr>kind = ''tests_row'', ok = True, details = []\<rparr>"
  by (simp add: sample_defs path_defs disk_defs object_defs plan_defs)

text \<open>
  For every other identifier the row checks do fail: when the manifest
  parses, the secondary CSVs are absent and no secrets path is a directory, the dry run
  prints a document whose \<open>missingFiles\<close> are the four secondary names, and every
  type-specific check of a project not named like a member of \<open>Object.prototype\<close> has
  \<open>ok = false\<close> and empty details.
\<close>

lemma ordinary_names_fail_checks:
  assumes "isDryRun (drop 2 argv)"
    and "readCsvSync w (path_join (cwd w) [''PROJECTS_MANIFEST.csv'']) = Inr rows"
    and "\<forall>n\<in>set secondaryFiles. \<not> fileExists w (path_join (cwd w) [n])"
    and "\<forall>r\<in>set rows. lookup w (envPathForProject w (project_key r)) \<noteq> Some Dir"
  shows "\<exists>s. main argv w = (w, Inr (PlanDoc s))
      \<and> missingFiles s = secondaryFiles
      \<and> presentFiles s = [''PROJECTS_MANIFEST.csv'']
      \<and> (\<forall>p\<in>set (plans s). projectId p \<notin> set object_prototype_names \<longrightarrow>
            (\<forall>c\<in>set (checks p). kind c \<noteq> ''env'' \<longrightarrow> \<not> ok c \<and> details c = []))"
proof -
  have rows: "read_rows w ''PROJECTS_MANIFEST.csv'' = rows"
    using assms(2) by (rule read_rows_ok)
  have absent: "read_rows w n = []" if "n \<in> set secondaryFiles" for n
    using assms(3) that
    by (auto simp: read_rows_def readCsvSync_def readFile_def fileExists_def split: option.splits)
  have ix: "testsById w = index_by_id []" "sitesById w = index_by_id []"
    "hooksById w = index_by_id []"
    by (simp_all add: testsById_def sitesById_def hooksById_def absent secondaryFiles_def)
  have "\<forall>pid\<in>set (projectIds w). \<exists>p. plan_project w pid = Inr p"
  proof
    fix pid assume pid: "pid \<in> set (projectIds w)"
    then obtain r where "r \<in> set rows" "pid = project_key r"
      by (auto simp: set_projectIds rows)
    then have "lookup w (envPathForProject w pid) \<noteq> Some Dir"
      using assms(4) by simp
    then show "\<exists>p. plan_project w pid = Inr p"
      using projectIds_own [OF pid] by (simp add: plan_project_ok)
  qed
  then obtain ps where ps: "plan_loop w (projectIds w) = Inr ps"
    using plan_loop_ok by blast
  have exists: "fileExists w (path_join (cwd w) [''PROJECTS_MANIFEST.csv''])"
    using assms(2)
    by (auto simp: readCsvSync_def readFile_def fileExists_def split: option.splits node.splits)
  have present: "present_files w = [''PROJECTS_MANIFEST.csv'']"
    using assms(3) exists by (simp add: present_files_def requiredFiles_def secondaryFiles_def)
  then have missing: "missing w = secondaryFiles"
    by (simp add: missing_def requiredFiles_def secondaryFiles_def)
  have checks: "\<forall>p\<in>set ps. projectId p \<notin> set object_prototype_names \<longrightarrow>
            (\<forall>c\<in>set (checks p). kind c \<noteq> ''env'' \<longrightarrow> \<not> ok c \<and> details c = [])"
  proof (intro ballI impI)
    fix p c
    assume p: "p \<in> set ps" and name: "projectId p \<notin> set object_prototype_names"
      and c: "c \<in> set (checks p)" and kind: "kind c \<noteq> ''env''"
    let ?pid = "projectId p"
    have run: "plan_project w ?pid = Inr p"
      using plan_loop_members [OF ps] p by simp
    obtain ty e where ty: "field (obj_get (byId w) ?pid) ''type'' = Inr ty"
      and e: "loadEnvIfExists w ?pid = Inr e"
      using run by (auto simp: plan_project_shape split: sum.splits)
    note shape = run [unfolded plan_project_shape ty e, simplified, symmetric]
    have "checks p =
        \<lparr>kind = ''env'', ok = present e, details = env_details e\<rparr>
        # (if ty = Some ''playwright_tests''
           then [\<lparr>kind = ''tests_row'', ok = False, details = []\<rparr>] else [])
        @ (if ty = Some ''html_site''
           then [\<lparr>kind = ''html_row'', ok = False, details = []\<rparr>] else [])
        @ (if ty = Some ''webhook''
           then [\<lparr>kind = ''webhook_row'', ok = False, details = []\<rparr>] else [])"
      by (subst shape) (simp add: ix obj_get_empty [OF name] row_check_undefined)
    then show "\<not> ok c \<and> details c = []"
      using c kind by (auto split: if_splits)
  qed
  show ?thesis
    using assms(1) ps checks
    by (intro exI [of _ "make_summary w ps"]) (simp add: main_def make_summary_def present missing)
qed

subsection \<open>C5: the later of two rows with one identifier\<close>

text \<open>
  C5: when a CSV has several rows with one identifier, the index maps the identifier to
  the last of them, and what the plan of that project takes from the CSV is fixed by
  that row alone. The checks of a plan are the env check followed by the row checks.
  From the primary manifest the last row gives the type, decides which row checks and
  which actions there are, and its deploy target alone decides whether there is a
  deploy action and which one (none when the target is empty or missing, whatever the
  earlier rows say). From the tests, sites and webhooks CSVs, for a project of the
  matching type, the one row check is passed and its details are the fields picked
  from the last row. From the apps CSV the row adds the release action, once, as the
  last action.
\<close>

theorem C5_last_row_wins:
  assumes "read_rows w name = pre @ r # post"
    and "\<forall>r'\<in>set post. project_key r' \<noteq> project_key r"
    and "plan_project w (project_key r) = Inr p"
  shows "obj_get (index_by_id (read_rows w name)) (project_key r) = Own r
    \<and> (\<exists>e. loadEnvIfExists w (project_key r) = Inr e
      \<and> checks p \<noteq> []
      \<and> hd (checks p) = \<lparr>kind = ''env'', ok = present e, details = env_details e\<rparr>
      \<and> (name = ''PROJECTS_MANIFEST.csv'' \<longrightarrow>
           type p = r ''type''
           \<and> tl (checks p) =
               (if r ''type'' = Some ''playwright_tests''
                then [row_check ''tests_row'' (obj_get (testsById w) (project_key r))
                        [''url'', ''browsers'', ''devices'']] else [])
               @ (if r ''type'' = Some ''html_site''
                  then [row_check ''html_row'' (obj_get (sitesById w) (project_key r))
                          [''build_tool'', ''i18n_locales'']] else [])
               @ (if r ''type'' = Some ''webhook''
                  then [row_check ''webhook_row'' (obj_get (hooksById w) (project_key r))
                          [''provider'', ''endpoint_url'']] else [])
           \<and> actions p =
               (if r ''type'' = Some ''playwright_tests''
                then [''scaffold Playwright config and tests'',
                      ''wire CI to run on PR and nightly''] else [])
               @ (if r ''type'' = Some ''html_site''
                  then ''scaffold HTML site with chosen build tool''
                       # (case r ''deploy_target'' of
                            Some t \<Rightarrow> if t \<noteq> [] then [''configure deploy: '' @ t] else []
                          | None \<Rightarrow> []) else [])
               @ (if r ''type'' = Some ''webhook''
                  then [''validate signing secret and subscribe events'',
                        ''provision DLQ and retries''] else [])
               @ (if truthy (obj_get (appsById w) (project_key r))
                  then [''prepare app release pipeline''] else []))
      \<and> (name = ''PLAYWRIGHT_TESTS.csv'' \<longrightarrow> type p = Some ''playwright_tests'' \<longrightarrow>
           tl (checks p) =
             [\<lparr>kind = ''tests_row'', ok = True,
               details = row_details (pick r [''url'', ''browsers'', ''devices''])\<rparr>])
      \<and> (name = ''HTML_SITES.csv'' \<longrightarrow> type p = Some ''html_site'' \<longrightarrow>
           tl (checks p) =
             [\<lparr>kind = ''html_row'', ok = True,
               details = row_details (pick r [''build_tool'', ''i18n_locales''])\<rparr>])
      \<and> (name = ''WEBHOOKS.csv'' \<longrightarrow> type p = Some ''webhook'' \<longrightarrow>
           tl (checks p) =
             [\<lparr>kind = ''webhook_row'', ok = True,
               details = row_details (pick r [''provider'', ''endpoint_url''])\<rparr>])
      \<and> (name = ''APPS.csv'' \<longrightarrow>
           actions p \<noteq> [] \<and> last (actions p) = ''prepare app release pipeline''
           \<and> ''prepare app release pipeline'' \<notin> set (butlast (actions p))))"
proof -
  let ?k = "project_key r"
  have own: "obj_get (index_by_id (read_rows w name)) ?k = Own r"
    unfolding assms(1) using assms(2) by (rule obj_get_last_wins)
  obtain ty e where ty: "field (obj_get (byId w) ?k) ''type'' = Inr ty"
    and e: "loadEnvIfExists w ?k = Inr e"
    using assms(3) by (auto simp: plan_project_shape split: sum.splits)
  note p = assms(3)[unfolded plan_project_shape ty e, simplified, symmetric]
  have some: "checks p \<noteq> []"
    by (simp add: p)
  have first: "hd (checks p) = \<lparr>kind = ''env'', ok = present e, details = env_details e\<rparr>"
    by (simp add: p)
  have manifest: "name = ''PROJECTS_MANIFEST.csv'' \<longrightarrow>
           type p = r ''type''
           \<and> tl (checks p) =
               (if r ''type'' = Some ''playwright_tests''
                then [row_check ''tests_row'' (obj_get (testsById w) (project_key r))
                        [''url'', ''browsers'', ''devices'']] else [])
               @ (if r ''type'' = Some ''html_site''
                  then [row_check ''html_row'' (obj_get (sitesById w) (project_key r))
                          [''build_tool'', ''i18n_locales'']] else [])
               @ (if r ''type'' = Some ''webhook''
                  then [row_check ''webhook_row'' (obj_get (hooksById w) (project_key r))
                          [''provider'', ''endpoint_url'']] else [])
           \<and> actions p =
               (if r ''type'' = Some ''playwright_tests''
                then [''scaffold Playwright config and tests'',
                      ''wire CI to run on PR and nightly''] else [])
               @ (if r ''type'' = Some ''html_site''
                  then ''scaffold HTML site with chosen build tool''
                       # (case r ''deploy_target'' of
                            Some t \<Rightarrow> if t \<noteq> [] then [''configure deploy: '' @ t] else []
                          | None \<Rightarrow> []) else [])
               @ (if r ''type'' = Some ''webhook''
                  then [''validate signing secret and subscribe events'',
                        ''provision DLQ and retries''] else [])
               @ (if truthy (obj_get (appsById w) ?k)
                  then [''prepare app release pipeline''] else [])"
  proof
    assume "name = ''PROJECTS_MANIFEST.csv''"
    then have meta: "obj_get (byId w) ?k = Own r"
      using own by (simp add: byId_def)
    then have "ty = r ''type''"
      using ty by (simp add: field_def)
    then show "type p = r ''type''
           \<and> tl (checks p) =
               (if r ''type'' = Some ''playwright_tests''
                then [row_check ''tests_row'' (obj_get (testsById w) (project_key r))
                        [''url'', ''browsers'', ''devices'']] else [])
               @ (if r ''type'' = Some ''html_site''
                  then [row_check ''html_row'' (obj_get (sitesById w) (project_key r))
                          [''build_tool'', ''i18n_locales'']] else [])
               @ (if r ''type'' = Some ''webhook''
                  then [row_check ''webhook_row'' (obj_get (hooksById w) (project_key r))
                          [''provider'', ''endpoint_url'']] else [])
           \<and> actions p =
               (if r ''type'' = Some ''playwright_tests''
                then [''scaffold Playwright config and tests'',
                      ''wire CI to run on PR and nightly''] else [])
               @ (if r ''type'' = Some ''html_site''
                  then ''scaffold HTML site with chosen build tool''
                       # (case r ''deploy_target'' of
                            Some t \<Rightarrow> if t \<noteq> [] then [''configure deploy: '' @ t] else []
                          | None \<Rightarrow> []) else [])
               @ (if r ''type'' = Some ''webhook''
                  then [''validate signing secret and subscribe events'',
                        ''provision DLQ and retries''] else [])
               @ (if truthy (obj_get (appsById w) ?k)
                  then [''prepare app release pipeline''] else [])"
      by (subst (1 2 3) p) (simp add: meta field_def split: option.splits)
  qed
  have tests: "name = ''PLAYWRIGHT_TESTS.csv'' \<longrightarrow> type p = Some ''playwright_tests'' \<longrightarrow>
           tl (checks p) =
             [\<lparr>kind = ''tests_row'', ok = True,
               details = row_details (pick r [''url'', ''browsers'', ''devices''])\<rparr>]"
    using own by (auto simp: p testsById_def row_check_def truthy_def or_empty_def)
  have sites: "name = ''HTML_SITES.csv'' \<longrightarrow> type p = Some ''html_site'' \<longrightarrow>
           tl (checks p) =
             [\<lparr>kind = ''html_row'', ok = True,
               details = row_details (pick r [''build_tool'', ''i18n_locales''])\<rparr>]"
    using own by (auto simp: p sitesById_def row_check_def truthy_def or_empty_def)
  have hooks: "name = ''WEBHOOKS.csv'' \<longrightarrow> type p = Some ''webhook'' \<longrightarrow>
           tl (checks p) =
             [\<lparr>kind = ''webhook_row'', ok = True,
               details = row_details (pick r [''provider'', ''endpoint_url''])\<rparr>]"
    using own by (auto simp: p hooksById_def row_check_def truthy_def or_empty_def)
  have apps: "name = ''APPS.csv'' \<longrightarrow>
           actions p \<noteq> [] \<and> last (actions p) = ''prepare app release pipeline''
           \<and> ''prepare app release pipeline'' \<notin> set (butlast (actions p))"
  proof
    assume "name = ''APPS.csv''"
    then have tr: "truthy (obj_get (appsById w) ?k)"
      using own by (simp add: appsById_def truthy_def)
    let ?front = "(if ty = Some ''playwright_tests''
                then [''scaffold Playwright config and tests'',
                      ''wire CI to run on PR and nightly''] else [])
               @ (if ty = Some ''html_site''
                  then ''scaffold HTML site with chosen build tool''
                       # (case field (obj_get (byId w) ?k) ''deploy_target'' of
                            Inr (Some t) \<Rightarrow>
                              if t \<noteq> [] then [''configure deploy: '' @ t] else []
                          | _ \<Rightarrow> []) else [])
               @ (if ty = Some ''webhook''
                  then [''validate signing secret and subscribe events'',
                        ''provision DLQ and retries''] else [])"
    have as: "actions p = ?front @ [''prepare app release pipeline'']"
      by (subst p) (simp add: tr)
    have fresh: "''prepare app release pipeline'' \<notin> set ?front"
      by (simp split: sum.splits option.splits)
    show "actions p \<noteq> [] \<and> last (actions p) = ''prepare app release pipeline''
           \<and> ''prepare app release pipeline'' \<notin> set (butlast (actions p))"
      unfolding as using fresh by (simp only: butlast_snoc last_snoc simp_thms snoc_eq_iff_butlast append_is_Nil_conv not_Cons_self2 list.distinct)
  qed
  show ?thesis
    using e some first manifest tests sites hooks apps
    by (intro conjI own exI [of _ e])
qed

theorem C5_last_row_wins_witness:
  "read_rows dup_world ''PLAYWRIGHT_TESTS.csv'' = [tests_old] @ tests_new # [tests_other]
   \<and> project_key tests_old = project_key tests_new
   \<and> project_key tests_other \<noteq> project_key tests_new
   \<and> (\<exists>p. plan_project dup_world (project_key tests_new) = Inr p
        \<and> checks p =
            [\<lparr>kind = ''env'', ok = False,
              details = [(''envPath'', JStr ''/work/secrets/a/.env''),
                         (''present'', JBool False), (''vars'', JStrs [])]\<rparr>,
             \<lparr>kind = ''tests_row'', ok = True,
              details = [(''url'', JStr ''https://new.example''),
                         (''browsers'', JStr ''chromium'')]\<rparr>])
   \<and> read_rows redeploy_world ''PROJECTS_MANIFEST.csv'' = [redeploy_old] @ redeploy_new # []
   \<and> project_key redeploy_old = project_key redeploy_new
   \<and> redeploy_old ''type'' = Some ''webhook''
   \<and> redeploy_old ''deploy_target'' = Some ''netlify''
   \<and> (\<exists>p. plan_project redeploy_world (project_key redeploy_new) = Inr p
        \<and> type p = Some ''html_site''
        \<and> map kind (checks p) = [''env'', ''html_row'']
        \<and> actions p = [''scaffold HTML site with chosen build tool''])"
proof -
  have rows: "read_rows dup_world ''PLAYWRIGHT_TESTS.csv'' = [tests_old] @ tests_new # [tests_other]"
    by (simp add: dup_world_def csv_file_def path_defs disk_defs)
  have same: "project_key tests_old = project_key tests_new"
    by (simp add: project_key_def tests_old_def tests_new_def)
  have other: "project_key tests_other \<noteq> project_key tests_new"
    by (simp add: project_key_def tests_other_def tests_new_def)
  then have later: "\<forall>r'\<in>set [tests_other]. project_key r' \<noteq> project_key tests_new"
    by simp
  have "\<exists>p. plan_project dup_world (project_key tests_new) = Inr p
      \<and> type p = Some ''playwright_tests''"
    by (simp add: sample_defs path_defs disk_defs object_defs plan_defs)
  then obtain p where p: "plan_project dup_world (project_key tests_new) = Inr p"
    and ty: "type p = Some ''playwright_tests''"
    by (elim exE conjE)
  have env: "loadEnvIfExists dup_world (project_key tests_new) =
      Inr \<lparr>envPath = ''/work/secrets/a/.env'', present = False, vars = []\<rparr>"
    by (simp add: sample_defs path_defs disk_defs object_defs plan_defs)
  have picked: "row_details (pick tests_new [''url'', ''browsers'', ''devices'']) =
      [(''url'', JStr ''https://new.example''), (''browsers'', JStr ''chromium'')]"
    by (simp add: row_details_def pick_def tests_new_def)
  have "checks p =
            [\<lparr>kind = ''env'', ok = False,
              details = [(''envPath'', JStr ''/work/secrets/a/.env''),
                         (''present'', JBool False), (''vars'', JStrs [])]\<rparr>,
             \<lparr>kind = ''tests_row'', ok = True,
              details = [(''url'', JStr ''https://new.example''),
                         (''browsers'', JStr ''chromium'')]\<rparr>]"
    using C5_last_row_wins [OF rows later p] ty
    by (cases "checks p") (simp_all add: picked env env_details_def)
  with p have tests: "\<exists>p. plan_project dup_world (project_key tests_new) = Inr p
        \<and> checks p =
            [\<lparr>kind = ''env'', ok = False,
              details = [(''envPath'', JStr ''/work/secrets/a/.env''),
                         (''present'', JBool False), (''vars'', JStrs [])]\<rparr>,
             \<lparr>kind = ''tests_row'', ok = True,
              details = [(''url'', JStr ''https://new.example''),
                         (''browsers'', JStr ''chromium'')]\<rparr>]"
    by (intro exI[of _ p] conjI)
  have rows1: "read_rows redeploy_world ''PROJECTS_MANIFEST.csv'' = [redeploy_old] @ redeploy_new # []"
    by (simp add: redeploy_world_def redeploy_old_def redeploy_new_def csv_file_def path_defs disk_defs)
  have same1: "project_key redeploy_old = project_key redeploy_new"
    by (simp add: project_key_def redeploy_old_def redeploy_new_def)
  have type0: "redeploy_old ''type'' = Some ''webhook''"
    by (simp add: redeploy_old_def)
  have target0: "redeploy_old ''deploy_target'' = Some ''netlify''"
    by (simp add: redeploy_old_def)
  have last1: "\<forall>r'\<in>set []. project_key r' \<noteq> project_key redeploy_new"
    by simp
  have "\<exists>q. plan_project redeploy_world (project_key redeploy_new) = Inr q"
    by (simp add: redeploy_world_def redeploy_old_def redeploy_new_def csv_file_def project_key_def
        path_defs disk_defs object_defs plan_defs)
  then obtain q where q: "plan_project redeploy_world (project_key redeploy_new) = Inr q" ..
  have ty1: "redeploy_new ''type'' = Some ''html_site''"
    and target1: "redeploy_new ''deploy_target'' = Some []"
    by (simp_all add: redeploy_new_def)
  have no_app: "\<not> truthy (obj_get (appsById redeploy_world) (project_key redeploy_new))"
    by (simp add: redeploy_world_def redeploy_old_def redeploy_new_def csv_file_def project_key_def
        path_defs disk_defs object_defs appsById_def)
  have "type q = Some ''html_site''
        \<and> map kind (checks q) = [''env'', ''html_row'']
        \<and> actions q = [''scaffold HTML site with chosen build tool'']"
    using C5_last_row_wins [OF rows1 last1 q]
    by (cases "checks q") (clarsimp simp: ty1 target1 no_app row_check_def)+
  with q have manifest: "\<exists>p. plan_project redeploy_world (project_key redeploy_new) = Inr p
        \<and> type p = Some ''html_site''
        \<and> map kind (checks p) = [''env'', ''html_row'']
        \<and> actions p = [''scaffold HTML site with chosen build tool'']"
    by (intro exI[of _ q]) (simp only: simp_thms)
  show ?thesis
    by (intro conjI rows same other tests rows1 same1 type0 target0 manifest)
qed

subsection \<open>C6: a CSV that is absent or does not parse\<close>

text \<open>
  C6: when reading one of the five CSVs fails, because the file is absent or because it
  cannot be read or parsed, its records are the empty list. When it is the primary
  manifest, a dry run still prints a document, with no project and no plan, and exits
  with status 0. And the plans do not tell a file that fails from an absent one:
  removing the failing file from the disk leaves the identifiers and the result of the
  planning loop as they were.
\<close>

theorem C6_fail_soft:
  assumes "name \<in> set requiredFiles"
    and "readCsvSync w (path_join (cwd w) [name]) = Inl e"
  shows "read_rows w name = []
    \<and> (name = ''PROJECTS_MANIFEST.csv'' \<longrightarrow> isDryRun (drop 2 argv) \<longrightarrow>
         main argv w =
           (w, Inr (PlanDoc \<lparr>missingFiles = missing w, presentFiles = present_files w,
                             totalProjects = 0, plans = []\<rparr>))
         \<and> exit_status (main argv w) = 0)
    \<and> projectIds (remove_node w (path_join (cwd w) [name])) = projectIds w
    \<and> plan_loop (remove_node w (path_join (cwd w) [name])) (projectIds w)
        = plan_loop w (projectIds w)"
proof -
  let ?p = "path_join (cwd w) [name]"
  let ?w = "remove_node w ?p"
  have empty: "read_rows w name = []"
    using assms(2) by (rule read_rows_failed)
  have cwd: "cwd ?w = cwd w"
    by (simp add: remove_node_def)
  have p: "?p \<noteq> []"
    using csv_path_last [OF assms(1)] by simp
  have rows: "\<forall>n\<in>set requiredFiles. read_rows ?w n = read_rows w n"
  proof
    fix n assume n: "n \<in> set requiredFiles"
    show "read_rows ?w n = read_rows w n"
    proof (cases "n = name")
      case True
      have "read_rows ?w name = []"
        using p
        by (simp add: read_rows_def readCsvSync_def readFile_def lookup_remove_node cwd
            split: option.splits)
      then show ?thesis
        using empty True by simp
    next
      case False
      then have "path_join (cwd w) [n] \<noteq> ?p"
        using csv_path_inj [OF n assms(1)] by (intro notI) simp
      then show ?thesis
        by (intro read_rows_cong cwd) (simp add: lookup_remove_node)
    qed
  qed
  have env: "loadEnvIfExists ?w pid = loadEnvIfExists w pid" for pid
    using env_path_not_csv [OF assms(1), of w pid "cwd w"]
    by (intro loadEnv_cong cwd) (simp add: lookup_remove_node)
  note ix = indexes_cong [OF rows]
  have "plan_project ?w pid = plan_project w pid" for pid
    by (rule plan_project_cong) (simp_all add: ix env)
  then have loop: "plan_loop ?w (projectIds w) = plan_loop w (projectIds w)"
    by (intro plan_loop_cong) simp
  have manifest: "name = ''PROJECTS_MANIFEST.csv'' \<longrightarrow> isDryRun (drop 2 argv) \<longrightarrow>
         main argv w =
           (w, Inr (PlanDoc \<lparr>missingFiles = missing w, presentFiles = present_files w,
                             totalProjects = 0, plans = []\<rparr>))
         \<and> exit_status (main argv w) = 0"
  proof (intro impI)
    assume "name = ''PROJECTS_MANIFEST.csv''" and dry: "isDryRun (drop 2 argv)"
    then have "byId w = []"
      using empty by (simp add: byId_def index_by_id_def fromEntries_def)
    then have ids: "projectIds w = []"
      by (simp add: projectIds_def object_keys_def)
    then have "main argv w =
           (w, Inr (PlanDoc \<lparr>missingFiles = missing w, presentFiles = present_files w,
                             totalProjects = 0, plans = []\<rparr>))"
      using dry by (simp add: main_def make_summary_def)
    then show "main argv w =
           (w, Inr (PlanDoc \<lparr>missingFiles = missing w, presentFiles = present_files w,
                             totalProjects = 0, plans = []\<rparr>))
         \<and> exit_status (main argv w) = 0"
      by (simp add: exit_status_def)
  qed
  show ?thesis
    using ix(6) by (intro conjI empty manifest loop)
qed

theorem C6_fail_soft_witness:
  "''PROJECTS_MANIFEST.csv'' \<in> set requiredFiles
   \<and> readCsvSync broken_world (path_join (cwd broken_world) [''PROJECTS_MANIFEST.csv''])
       = Inl ParseError
   \<and> isDryRun (drop 2 (script_argv []))
   \<and> read_rows broken_world ''PROJECTS_MANIFEST.csv'' = []
   \<and> main (script_argv []) broken_world =
       (broken_world,
        Inr (PlanDoc \<lparr>missingFiles = [''PLAYWRIGHT_TESTS.csv'', ''WEBHOOKS.csv'', ''APPS.csv''],
                       presentFiles = [''PROJECTS_MANIFEST.csv'', ''HTML_SITES.csv''],
                       totalProjects = 0, plans = []\<rparr>))
   \<and> exit_status (main (script_argv []) broken_world) = 0
   \<and> plan_loop (remove_node broken_world (path_join (cwd broken_world) [''PROJECTS_MANIFEST.csv'']))
         (projectIds broken_world)
       = plan_loop broken_world (projectIds broken_world)"
proof -
  have name: "''PROJECTS_MANIFEST.csv'' \<in> set requiredFiles"
    by (simp add: requiredFiles_def)
  have failed: "readCsvSync broken_world (path_join (cwd broken_world) [''PROJECTS_MANIFEST.csv''])
      = Inl ParseError"
    by (simp add: broken_world_def path_defs disk_defs)
  have dry: "isDryRun (drop 2 (script_argv []))"
    by (simp add: script_argv_def isDryRun_def)
  have files: "missing broken_world = [''PLAYWRIGHT_TESTS.csv'', ''WEBHOOKS.csv'', ''APPS.csv'']"
    "present_files broken_world = [''PROJECTS_MANIFEST.csv'', ''HTML_SITES.csv'']"
    by (simp_all add: broken_world_def csv_file_def path_defs disk_defs missing_def
        present_files_def requiredFiles_def)
  note soft = C6_fail_soft [OF name failed, of "script_argv []"]
  show ?thesis
    using soft dry by (intro conjI name failed) (simp_all add: files exit_status_def)
qed

subsection \<open>C7: a dry run changes nothing on disk\<close>

text \<open>
  C7: in dry-run mode the disk after the run is the disk before it, and the run either
  prints the plan document or ends with the exception that reached the top level.
\<close>

theorem C7_dry_run_leaves_disk:
  assumes "isDryRun (drop 2 argv)"
  shows "fst (main argv w) = w
    \<and> ((\<exists>s. snd (main argv w) = Inr (PlanDoc s)) \<or> (\<exists>e. snd (main argv w) = Inl e))"
  using assms by (simp add: main_def split: sum.splits)

theorem C7_dry_run_leaves_disk_witness:
  "isDryRun (drop 2 (script_argv [''--dry-run'']))
   \<and> fst (main (script_argv [''--dry-run'']) demo_world) = demo_world"
proof -
  have dry: "isDryRun (drop 2 (script_argv [''--dry-run'']))"
    by (simp add: script_argv_def isDryRun_def)
  show ?thesis
    using C7_dry_run_leaves_disk [OF dry, of demo_world] dry by simp
qed

subsection \<open>C8: the values of a secrets file\<close>

text \<open>
  C8: on two disks that differ only in files named \<open>.env\<close>, as every secrets file
  \<open>secrets/<id>/.env\<close> is, and there only in the values of the variables (the same
  names in the same order), a dry run prints the same document; and for a project whose
  secrets file exists, the env check lists the names \<open>Object.keys\<close> finds in the
  parsed file and nothing else of it.
\<close>

theorem C8_secret_values_do_not_show:
  assumes "isDryRun (drop 2 argv)"
    and "cwd w1 = cwd w2"
    and "\<forall>p. lookup w1 p = lookup w2 p
           \<or> (p \<noteq> [] \<and> last p = ''.env'' \<and> same_names (lookup w1 p) (lookup w2 p))"
  shows "snd (main argv w1) = snd (main argv w2)
    \<and> (\<forall>pid f. fileExists w1 (envPathForProject w1 pid)
          \<and> lookup w1 (envPathForProject w1 pid) = Some (File f) \<longrightarrow>
          loadEnvIfExists w1 pid =
            Inr \<lparr>envPath = path_string (envPathForProject w1 pid), present = True,
                 vars = object_keys (dotenv f)\<rparr>)"
proof -
  have csv_same: "lookup w1 (path_join (cwd w2) [name]) = lookup w2 (path_join (cwd w2) [name])"
    if name: "name \<in> set requiredFiles" for name
  proof -
    have "last (path_join (cwd w2) [name]) \<noteq> ''.env''"
      using csv_path_last [OF name, of "cwd w2"] required_plain [OF name] by simp
    then show ?thesis
      using assms(3) by (elim allE [of _ "path_join (cwd w2) [name]"] disjE) simp_all
  qed
  have rows: "\<forall>name\<in>set requiredFiles. read_rows w1 name = read_rows w2 name"
    using csv_same by (intro ballI read_rows_cong assms(2))
  note ix = indexes_cong [OF rows]
  have env: "loadEnvIfExists w1 pid = loadEnvIfExists w2 pid" for pid
  proof -
    from assms(3) have "lookup w1 (envPathForProject w2 pid) = lookup w2 (envPathForProject w2 pid)
        \<or> same_names (lookup w1 (envPathForProject w2 pid)) (lookup w2 (envPathForProject w2 pid))"
      by (elim allE [of _ "envPathForProject w2 pid"] disjE) simp_all
    then show ?thesis
    proof
      assume "lookup w1 (envPathForProject w2 pid) = lookup w2 (envPathForProject w2 pid)"
      with assms(2) show ?thesis
        by (rule loadEnv_cong)
    next
      assume "same_names (lookup w1 (envPathForProject w2 pid))
          (lookup w2 (envPathForProject w2 pid))"
      with assms(2) show ?thesis
        by (rule same_names_env)
    qed
  qed
  have "plan_project w1 pid = plan_project w2 pid" for pid
    by (rule plan_project_cong) (simp_all add: ix env)
  then have loop: "plan_loop w1 (projectIds w1) = plan_loop w2 (projectIds w2)"
    unfolding ix(6) by (intro plan_loop_cong) simp
  have "make_summary w1 ps = make_summary w2 ps" for ps
    by (intro summary_cong assms(2) ix(6) ballI fileExists_cong csv_same)
  then have summary: "make_summary w1 = make_summary w2"
    by (rule ext)
  have printed: "snd (main argv w1) = snd (main argv w2)"
    using assms(1) summary loop by (rule main_dry_cong)
  have names: "\<forall>pid f. fileExists w1 (envPathForProject w1 pid)
          \<and> lookup w1 (envPathForProject w1 pid) = Some (File f) \<longrightarrow>
          loadEnvIfExists w1 pid =
            Inr \<lparr>envPath = path_string (envPathForProject w1 pid), present = True,
                 vars = object_keys (dotenv f)\<rparr>"
    by (simp add: loadEnvIfExists_def fileExists_def readFile_def Let_def split: option.splits)
  show ?thesis
    by (intro conjI printed names)
qed

theorem C8_secret_values_do_not_show_witness:
  "isDryRun (drop 2 (script_argv []))
   \<and> cwd (secret_world ''s3cr3t'') = cwd (secret_world ''hunter2'')
   \<and> lookup (secret_world ''s3cr3t'') [''work'', ''secrets'', ''demo1'', ''.env'']
       \<noteq> lookup (secret_world ''hunter2'') [''work'', ''secrets'', ''demo1'', ''.env'']
   \<and> same_names (lookup (secret_world ''s3cr3t'') [''work'', ''secrets'', ''demo1'', ''.env''])
                 (lookup (secret_world ''hunter2'') [''work'', ''secrets'', ''demo1'', ''.env''])
   \<and> snd (main (script_argv []) (secret_world ''s3cr3t''))
       = snd (main (script_argv []) (secret_world ''hunter2''))
   \<and> printed_check (main (script_argv []) (secret_world ''s3cr3t'')) ''demo1'' ''env'' =
       Some \<lparr>kind = ''env'', ok = True,
             details = [(''envPath'', JStr ''/work/secrets/demo1/.env''),
                        (''present'', JBool True),
                        (''vars'', JStrs [''VERCEL_TOKEN'', ''API_KEY''])]\<rparr>"
proof -
  let ?env = "[''work'', ''secrets'', ''demo1'', ''.env'']"
  have dry: "isDryRun (drop 2 (script_argv []))"
    by (simp add: script_argv_def isDryRun_def)
  have cwd: "cwd (secret_world ''s3cr3t'') = cwd (secret_world ''hunter2'')"
    by (simp add: secret_world_def)
  have differ: "lookup (secret_world ''s3cr3t'') ?env \<noteq> lookup (secret_world ''hunter2'') ?env"
    by (simp add: secret_world_def lookup_def)
  have names: "same_names (lookup (secret_world ''s3cr3t'') ?env) (lookup (secret_world ''hunter2'') ?env)"
    by (simp add: secret_world_def lookup_def same_names_def)
  have same: "\<forall>p. lookup (secret_world ''s3cr3t'') p = lookup (secret_world ''hunter2'') p
      \<or> (p \<noteq> [] \<and> last p = ''.env''
          \<and> same_names (lookup (secret_world ''s3cr3t'') p) (lookup (secret_world ''hunter2'') p))"
  proof
    fix p
    show "lookup (secret_world ''s3cr3t'') p = lookup (secret_world ''hunter2'') p
      \<or> (p \<noteq> [] \<and> last p = ''.env''
          \<and> same_names (lookup (secret_world ''s3cr3t'') p) (lookup (secret_world ''hunter2'') p))"
    proof (cases "p = ?env")
      case True
      then show ?thesis
        using names by simp
    next
      case False
      then have "lookup (secret_world ''s3cr3t'') p = lookup (secret_world ''hunter2'') p"
        by (simp add: secret_world_def lookup_def)
      then show ?thesis
        by (rule disjI1)
    qed
  qed
  have printed: "printed_check (main (script_argv []) (secret_world ''s3cr3t'')) ''demo1'' ''env'' =
       Some \<lparr>kind = ''env'', ok = True,
             details = [(''envPath'', JStr ''/work/secrets/demo1/.env''),
                        (''present'', JBool True),
                        (''vars'', JStrs [''VERCEL_TOKEN'', ''API_KEY''])]\<rparr>"
    by (simp add: secret_world_def sample_defs path_defs disk_defs object_defs plan_defs)
  note hidden = C8_secret_values_do_not_show [OF dry cwd same]
  have "snd (main (script_argv []) (secret_world ''s3cr3t''))
       = snd (main (script_argv []) (secret_world ''hunter2''))"
    using hidden by (rule conjunct1)
  then show ?thesis
    by (intro conjI dry cwd differ names printed)
qed

subsection \<open>C9: running apply mode twice\<close>

text \<open>
  C9 says that on every disk the second of two runs in apply mode ends without error.
  With the identifiers \<open>x\<close> and \<open>x/.env\<close> in the manifest the first run ends without
  error and creates the directory \<open>secrets/x/.env\<close>; the second run finds it where it
  looks for the secrets file of \<open>x\<close>, reading it fails with \<open>EISDIR\<close>, and the run ends
  with status 1.
\<close>

theorem C9_second_apply_fails:
  "snd (main (script_argv [''--apply'']) collide_world) =
     Inr (ApplyMessage
       ''Apply step ensured base directories. Next steps: repo cloning and scaffolding.'')
   \<and> exit_status (main (script_argv [''--apply'']) collide_world) = 0
   \<and> snd (main (script_argv [''--apply''])
            (fst (main (script_argv [''--apply'']) collide_world))) = Inl EISDIR
   \<and> exit_status (main (script_argv [''--apply''])
            (fst (main (script_argv [''--apply'']) collide_world))) = 1
   \<and> lookup collide_world [''work'', ''secrets'', ''x'', ''.env''] = None
   \<and> lookup (fst (main (script_argv [''--apply'']) collide_world))
        [''work'', ''secrets'', ''x'', ''.env''] = Some Dir"
  by (simp add: collide_world_def collide_rows_def sample_defs path_defs disk_defs object_defs
      plan_defs run_defs)

text \<open>
  C9, amended. On every disk and with every argument list, a second run leaves the disk
  exactly as the first run left it. After a run that printed the message of the apply
  step, the four directories \<open>secrets\<close>, \<open>content\<close>, \<open>assets\<close> and \<open>imports\<close> of the
  working directory exist, and so do \<open>secrets/<id>\<close>, \<open>content/<id>\<close> and
  \<open>assets/<id>\<close> for the identifier of every row of the primary manifest. Provided the
  first run created no directory at the secrets path \<open>secrets/<id>/.env\<close> of a
  project, the second run ends as the first run ended, so without error when the first
  run had none.
\<close>

theorem C9_second_apply_repeats_first:
  "fst (main argv (fst (main argv w))) = fst (main argv w)
   \<and> (\<forall>m. snd (main argv w) = Inr (ApplyMessage m) \<longrightarrow>
        (\<forall>d\<in>{''secrets'', ''content'', ''assets'', ''imports''}.
            lookup (fst (main argv w)) (path_join (cwd w) [d]) = Some Dir)
        \<and> (\<forall>r\<in>set (read_rows w ''PROJECTS_MANIFEST.csv'').
             \<forall>d\<in>{''secrets'', ''content'', ''assets''}.
               lookup (fst (main argv w)) (path_join (cwd w) [d, project_key r]) = Some Dir))
   \<and> ((\<forall>r\<in>set (read_rows w ''PROJECTS_MANIFEST.csv'').
          lookup (fst (main argv w)) (envPathForProject w (project_key r))
            = lookup w (envPathForProject w (project_key r)))
        \<longrightarrow> snd (main argv (fst (main argv w))) = snd (main argv w)
            \<and> exit_status (main argv (fst (main argv w))) = exit_status (main argv w))"
proof -
  let ?w = "fst (main argv w)"
  have g: "grows w ?w"
    by (rule main_grows)
  then have cwd: "cwd ?w = cwd w"
    by (simp add: grows_def)
  have rows: "\<forall>name\<in>set requiredFiles. read_rows ?w name = read_rows w name"
    using grows_read_rows [OF g] by simp
  note ix = indexes_cong [OF rows]
  have dirs: "apply_dirs ?w = apply_dirs w"
    using g by (rule apply_dirs_grows)
  have disk: "fst (main argv ?w) = ?w"
  proof (cases "?w = w")
    case True
    then show ?thesis
      by simp
  next
    case False
    then have first: "?w = fst (ensure_dirs w (apply_dirs w))"
      using main_disk [of argv w] by simp
    then obtain r where "ensure_dirs w (apply_dirs w) = (?w, r)"
      by (cases "ensure_dirs w (apply_dirs w)") simp
    then have "ensure_dirs ?w (apply_dirs ?w) = (?w, r)"
      unfolding dirs by (rule ensure_dirs_again)
    then have "fst (ensure_dirs ?w (apply_dirs ?w)) = ?w"
      by simp
    then show ?thesis
      using main_disk [of argv ?w] by presburger
  qed
  have made: "\<forall>m. snd (main argv w) = Inr (ApplyMessage m) \<longrightarrow>
        (\<forall>d\<in>{''secrets'', ''content'', ''assets'', ''imports''}.
            lookup ?w (path_join (cwd w) [d]) = Some Dir)
        \<and> (\<forall>r\<in>set (read_rows w ''PROJECTS_MANIFEST.csv'').
             \<forall>d\<in>{''secrets'', ''content'', ''assets''}.
               lookup ?w (path_join (cwd w) [d, project_key r]) = Some Dir)"
  proof (intro allI impI)
    fix m assume m: "snd (main argv w) = Inr (ApplyMessage m)"
    obtain w' r where run: "ensure_dirs w (apply_dirs w) = (w', r)"
      by (cases "ensure_dirs w (apply_dirs w)")
    have "?w = w' \<and> r = None"
      using m run by (auto simp: main_def split: sum.splits if_splits option.splits)
    then have all: "\<forall>p\<in>set (apply_dirs w). lookup ?w p = Some Dir"
      using ensure_dirs_all [of w "apply_dirs w" w'] run by simp
    have base: "\<forall>d\<in>{''secrets'', ''content'', ''assets'', ''imports''}.
        lookup ?w (path_join (cwd w) [d]) = Some Dir"
    proof
      fix d :: string assume "d \<in> {''secrets'', ''content'', ''assets'', ''imports''}"
      then have "d \<in> set toEnsure"
        by (simp add: toEnsure_def)
      then have "path_join (cwd w) [d] \<in> set (apply_dirs w)"
        by (rule base_dirs_planned)
      with all show "lookup ?w (path_join (cwd w) [d]) = Some Dir" ..
    qed
    have project: "\<forall>r\<in>set (read_rows w ''PROJECTS_MANIFEST.csv'').
        \<forall>d\<in>{''secrets'', ''content'', ''assets''}.
          lookup ?w (path_join (cwd w) [d, project_key r]) = Some Dir"
    proof (intro ballI)
      fix r and d :: string
      assume r: "r \<in> set (read_rows w ''PROJECTS_MANIFEST.csv'')"
        and d: "d \<in> {''secrets'', ''content'', ''assets''}"
      have pid: "project_key r \<in> set (projectIds w)"
        using r by (simp add: set_projectIds)
      have "path_join (cwd w) [d, project_key r] \<in> set (project_dirs w (project_key r))"
        using d by (elim insertE emptyE) (simp_all add: project_dirs_def)
      with pid have "path_join (cwd w) [d, project_key r] \<in> set (apply_dirs w)"
        by (rule project_dirs_planned)
      with all show "lookup ?w (path_join (cwd w) [d, project_key r]) = Some Dir" ..
    qed
    show "(\<forall>d\<in>{''secrets'', ''content'', ''assets'', ''imports''}.
            lookup ?w (path_join (cwd w) [d]) = Some Dir)
        \<and> (\<forall>r\<in>set (read_rows w ''PROJECTS_MANIFEST.csv'').
             \<forall>d\<in>{''secrets'', ''content'', ''assets''}.
               lookup ?w (path_join (cwd w) [d, project_key r]) = Some Dir)"
      using base project ..
  qed
  have outcome: "(\<forall>r\<in>set (read_rows w ''PROJECTS_MANIFEST.csv'').
          lookup ?w (envPathForProject w (project_key r))
            = lookup w (envPathForProject w (project_key r)))
        \<longrightarrow> snd (main argv ?w) = snd (main argv w)
            \<and> exit_status (main argv ?w) = exit_status (main argv w)"
  proof
    assume "\<forall>r\<in>set (read_rows w ''PROJECTS_MANIFEST.csv'').
          lookup ?w (envPathForProject w (project_key r))
            = lookup w (envPathForProject w (project_key r))"
    then have kept: "\<forall>pid\<in>set (projectIds w).
        lookup ?w (envPathForProject w pid) = lookup w (envPathForProject w pid)"
      by (simp add: set_projectIds)
    have "plan_project ?w pid = plan_project w pid" if "pid \<in> set (projectIds w)" for pid
    proof (rule plan_project_cong)
      show "loadEnvIfExists ?w pid = loadEnvIfExists w pid"
        using kept that by (intro loadEnv_cong cwd) simp
    qed (simp_all add: ix)
    then have loop: "plan_loop ?w (projectIds ?w) = plan_loop w (projectIds w)"
      unfolding ix(6) by (intro plan_loop_cong) simp
    have again: "snd (main argv ?w) = snd (main argv w)"
    proof (cases "plan_loop w (projectIds w)")
      case (Inl e)
      then show ?thesis
        by (simp add: main_def)
    next
      case (Inr ps)
      show ?thesis
      proof (cases "isDryRun (drop 2 argv)")
        case True
        then show ?thesis
          using Inr by (simp add: main_def)
      next
        case False
        obtain w' r where run: "ensure_dirs w (apply_dirs w) = (w', r)"
          by (cases "ensure_dirs w (apply_dirs w)")
        have first: "main argv w =
            (w', case r of Some e \<Rightarrow> Inl e
                 | None \<Rightarrow> Inr (ApplyMessage
                     ''Apply step ensured base directories. Next steps: repo cloning and scaffolding.''))"
          using Inr False run by (simp add: main_def split: option.splits)
        then have w': "?w = w'"
          by simp
        have "ensure_dirs w' (apply_dirs w) = (w', r)"
          using run by (rule ensure_dirs_again)
        then have "main argv w' =
            (w', case r of Some e \<Rightarrow> Inl e
                 | None \<Rightarrow> Inr (ApplyMessage
                     ''Apply step ensured base directories. Next steps: repo cloning and scaffolding.''))"
          using Inr False loop dirs unfolding w' by (simp add: main_def split: option.splits)
        then show ?thesis
          unfolding w' using first by simp
      qed
    qed
    then show "snd (main argv ?w) = snd (main argv w)
        \<and> exit_status (main argv ?w) = exit_status (main argv w)"
      by (simp add: exit_status_def)
  qed
  show ?thesis
    by (intro conjI disk made outcome)
qed

theorem C9_second_apply_repeats_first_witness:
  "read_rows demo_world ''PROJECTS_MANIFEST.csv'' = [demo_manifest]
   \<and> project_key demo_manifest = ''demo1''
   \<and> lookup (fst (main (script_argv [''--apply'']) demo_world)) (envPathForProject demo_world ''demo1'')
       = lookup demo_world (envPathForProject demo_world ''demo1'')
   \<and> snd (main (script_argv [''--apply'']) demo_world) =
       Inr (ApplyMessage
         ''Apply step ensured base directories. Next steps: repo cloning and scaffolding.'')
   \<and> snd (main (script_argv [''--apply'']) (fst (main (script_argv [''--apply'']) demo_world))) =
       Inr (ApplyMessage
         ''Apply step ensured base directories. Next steps: repo cloning and scaffolding.'')
   \<and> fst (main (script_argv [''--apply'']) (fst (main (script_argv [''--apply'']) demo_world)))
       = fst (main (script_argv [''--apply'']) demo_world)
   \<and> lookup demo_world [''work'', ''imports''] = None
   \<and> lookup (fst (main (script_argv [''--apply'']) demo_world)) [''work'', ''imports''] = Some Dir
   \<and> lookup (fst (main (script_argv [''--apply'']) demo_world)) [''work'', ''assets'', ''demo1'']
       = Some Dir"
proof -
  let ?argv = "script_argv [''--apply'']"
  have rows: "read_rows demo_world ''PROJECTS_MANIFEST.csv'' = [demo_manifest]"
    by (simp add: demo_world_def csv_file_def path_defs disk_defs)
  have key: "project_key demo_manifest = ''demo1''"
    by (simp add: project_key_def demo_manifest_def)
  have env: "lookup (fst (main ?argv demo_world)) (envPathForProject demo_world ''demo1'')
      = lookup demo_world (envPathForProject demo_world ''demo1'')"
    unfolding apply_demo by (simp add: demo_world_def path_defs lookup_def)
  then have untouched: "\<forall>r\<in>set (read_rows demo_world ''PROJECTS_MANIFEST.csv'').
      lookup (fst (main ?argv demo_world)) (envPathForProject demo_world (project_key r))
        = lookup demo_world (envPathForProject demo_world (project_key r))"
    by (simp add: rows key)
  have printed: "snd (main ?argv demo_world) =
       Inr (ApplyMessage
         ''Apply step ensured base directories. Next steps: repo cloning and scaffolding.'')"
    unfolding apply_demo by simp
  have before: "lookup demo_world [''work'', ''imports''] = None"
    by (simp add: demo_world_def lookup_def)
  have imports_path: "path_join (cwd demo_world) [''imports''] = [''work'', ''imports'']"
    by (simp add: demo_world_def path_defs)
  have assets_path: "path_join (cwd demo_world) [''assets'', project_key demo_manifest]
      = [''work'', ''assets'', ''demo1'']"
    by (simp add: key) (simp add: demo_world_def path_defs)
  note twice = C9_second_apply_repeats_first [of ?argv demo_world]
  have disk: "fst (main ?argv (fst (main ?argv demo_world))) = fst (main ?argv demo_world)"
    using twice by (rule conjunct1)
  have made: "(\<forall>d\<in>{''secrets'', ''content'', ''assets'', ''imports''}.
            lookup (fst (main ?argv demo_world)) (path_join (cwd demo_world) [d]) = Some Dir)
        \<and> (\<forall>r\<in>set (read_rows demo_world ''PROJECTS_MANIFEST.csv'').
             \<forall>d\<in>{''secrets'', ''content'', ''assets''}.
               lookup (fst (main ?argv demo_world))
                 (path_join (cwd demo_world) [d, project_key r]) = Some Dir)"
    using twice [THEN conjunct2, THEN conjunct1] printed by (elim allE impE)
  have again: "snd (main ?argv (fst (main ?argv demo_world))) = snd (main ?argv demo_world)"
    using twice [THEN conjunct2, THEN conjunct2, THEN mp, OF untouched] by (rule conjunct1)
  have d1: "lookup (fst (main ?argv demo_world)) [''work'', ''imports''] = Some Dir"
    using made unfolding imports_path [symmetric] by simp
  have d2: "lookup (fst (main ?argv demo_world)) [''work'', ''assets'', ''demo1''] = Some Dir"
    using made unfolding assets_path [symmetric] rows by simp
  show ?thesis
    using again disk d1 d2 by (intro conjI rows key env printed before) (simp_all only: printed)
qed

text \<open>
  An error of \<open>mkdir\<close> reaches the top level by design: with a regular file named
  \<open>secrets\<close> in the working directory both runs end with \<open>EEXIST\<close> and status 1.
\<close>

lemma blocked_directory_fails_twice:
  "snd (main (script_argv [''--apply'']) blocked_world) = Inl EEXIST
   \<and> snd (main (script_argv [''--apply''])
            (fst (main (script_argv [''--apply'']) blocked_world))) = Inl EEXIST
   \<and> exit_status (main (script_argv [''--apply''])
            (fst (main (script_argv [''--apply'']) blocked_world))) = 1"
  by (simp add: blocked_world_def sample_defs path_defs disk_defs object_defs plan_defs run_defs)

text \<open>
  The proviso holds whenever \<open>.env\<close> is no segment of the working directory and no
  segment of a project identifier: the directories a run creates then have no component
  \<open>.env\<close>, and every secrets path ends in one.
\<close>

lemma plain_names_keep_secrets_paths:
  assumes "''.env'' \<notin> set (cwd w)"
    and "\<forall>pid\<in>set (projectIds w). ''.env'' \<notin> set (split_slash pid)"
  shows "lookup (fst (main argv w)) (envPathForProject w pid') = lookup w (envPathForProject w pid')"
proof (rule ccontr)
  let ?q = "envPathForProject w pid'"
  assume changed: "lookup (fst (main argv w)) ?q \<noteq> lookup w ?q"
  obtain w' r where run: "ensure_dirs w (apply_dirs w) = (w', r)"
    by (cases "ensure_dirs w (apply_dirs w)")
  have "fst (main argv w) = w \<or> fst (main argv w) = w'"
    using run by (simp add: main_def split: sum.splits option.splits)
  then have "lookup w' ?q \<noteq> lookup w ?q"
    using changed by auto
  then obtain p where p: "p \<in> set (apply_dirs w)" and sub: "set ?q \<subseteq> set p"
    using ensure_dirs_changes [OF run] by blast
  have "''.env'' \<in> set ?q"
    using env_path_last [of w pid'] last_in_set by metis
  then have env: "''.env'' \<in> set p"
    using sub by blast
  have "''.env'' \<notin> set p"
  proof -
    have base: "''.env'' \<notin> set (path_join (cwd w) [d])"
      if "d \<in> set toEnsure" for d
      using set_path_join [of "cwd w" "[d]"] assms(1) that
      by (auto simp: toEnsure_def)
    have project: "''.env'' \<notin> set (path_join (cwd w) [d, pid])"
      if "d \<in> {''secrets'', ''content'', ''assets''}" and "pid \<in> set (projectIds w)" for d pid
      using set_path_join [of "cwd w" "[d, pid]"] assms that
      by auto
    from p show ?thesis
      using base project by (auto simp: apply_dirs_def project_dirs_def)
  qed
  with env show False
    by simp
qed

subsection \<open>C10: secondary rows of projects that are not in the manifest\<close>

text \<open>
  C10: on two disks whose four secondary CSVs parse and that differ only in rows of
  these CSVs whose identifier is not an identifier of the primary manifest, a dry run
  prints the same document.
\<close>

theorem C10_foreign_rows_ignored:
  assumes "isDryRun (drop 2 argv)"
    and "cwd w1 = cwd w2"
    and "\<forall>p. p \<notin> (\<lambda>n. path_join (cwd w2) [n]) ` set secondaryFiles \<longrightarrow> lookup w1 p = lookup w2 p"
    and "\<forall>n\<in>set secondaryFiles. \<exists>rows1 rows2.
           readCsvSync w1 (path_join (cwd w2) [n]) = Inr rows1
           \<and> readCsvSync w2 (path_join (cwd w2) [n]) = Inr rows2
           \<and> filter (\<lambda>r. project_key r \<in> set (projectIds w2)) rows1
               = filter (\<lambda>r. project_key r \<in> set (projectIds w2)) rows2"
  shows "snd (main argv w1) = snd (main argv w2)"
proof -
  let ?M = "set (projectIds w2)"
  let ?S = "(\<lambda>n. path_join (cwd w2) [n]) ` set secondaryFiles"
  have manifest_path: "path_join (cwd w2) [''PROJECTS_MANIFEST.csv''] \<notin> ?S"
  proof
    assume "path_join (cwd w2) [''PROJECTS_MANIFEST.csv''] \<in> ?S"
    then obtain n where n: "n \<in> set secondaryFiles"
      and eq: "path_join (cwd w2) [''PROJECTS_MANIFEST.csv''] = path_join (cwd w2) [n]"
      by (rule imageE)
    have "''PROJECTS_MANIFEST.csv'' = n"
      using manifest_required secondary_required [OF n] eq by (rule csv_path_inj)
    then show False
      using n manifest_not_secondary by simp
  qed
  then have manifest_same: "lookup w1 (path_join (cwd w2) [''PROJECTS_MANIFEST.csv''])
      = lookup w2 (path_join (cwd w2) [''PROJECTS_MANIFEST.csv''])"
    using assms(3) by simp
  have "read_rows w1 ''PROJECTS_MANIFEST.csv'' = read_rows w2 ''PROJECTS_MANIFEST.csv''"
    using assms(2) manifest_same by (rule read_rows_cong)
  then have byId: "byId w1 = byId w2"
    by (simp add: byId_def)
  then have ids: "projectIds w1 = projectIds w2"
    by (simp add: projectIds_def)
  have env_path: "envPathForProject w2 pid \<notin> ?S" for pid
  proof
    assume "envPathForProject w2 pid \<in> ?S"
    then obtain n where n: "n \<in> set secondaryFiles"
      and eq: "envPathForProject w2 pid = path_join (cwd w2) [n]"
      by (rule imageE)
    then show False
      using env_path_not_csv [OF secondary_required [OF n], of w2 pid "cwd w2"] by simp
  qed
  have env: "loadEnvIfExists w1 pid = loadEnvIfExists w2 pid" for pid
    using assms(3) env_path [of pid] by (intro loadEnv_cong assms(2)) simp
  have index: "map_of (index_by_id (read_rows w1 n)) pid = map_of (index_by_id (read_rows w2 n)) pid"
    if n: "n \<in> set secondaryFiles" and pid: "pid \<in> ?M" for n pid
  proof -
    obtain rows1 rows2 where r1: "readCsvSync w1 (path_join (cwd w2) [n]) = Inr rows1"
      and r2: "readCsvSync w2 (path_join (cwd w2) [n]) = Inr rows2"
      and same: "filter (\<lambda>r. project_key r \<in> ?M) rows1 = filter (\<lambda>r. project_key r \<in> ?M) rows2"
      using assms(4) n by blast
    have "read_rows w1 n = rows1" and "read_rows w2 n = rows2"
      using r1 r2 by (simp_all add: read_rows_def assms(2))
    then show ?thesis
      using index_filter [OF pid, of rows1] index_filter [OF pid, of rows2] same by simp
  qed
  have project: "plan_project w1 pid = plan_project w2 pid" if pid: "pid \<in> ?M" for pid
  proof (rule plan_project_cong)
    show "obj_get (byId w1) pid = obj_get (byId w2) pid"
      by (simp add: byId)
    show "obj_get (testsById w1) pid = obj_get (testsById w2) pid"
      unfolding testsById_def by (intro obj_get_cong index pid) (simp add: secondaryFiles_def)
    show "obj_get (sitesById w1) pid = obj_get (sitesById w2) pid"
      unfolding sitesById_def by (intro obj_get_cong index pid) (simp add: secondaryFiles_def)
    show "obj_get (hooksById w1) pid = obj_get (hooksById w2) pid"
      unfolding hooksById_def by (intro obj_get_cong index pid) (simp add: secondaryFiles_def)
    show "obj_get (appsById w1) pid = obj_get (appsById w2) pid"
      unfolding appsById_def by (intro obj_get_cong index pid) (simp add: secondaryFiles_def)
    show "loadEnvIfExists w1 pid = loadEnvIfExists w2 pid"
      by (rule env)
  qed
  have loop: "plan_loop w1 (projectIds w1) = plan_loop w2 (projectIds w2)"
    unfolding ids using project by (intro plan_loop_cong) simp
  have exists: "fileExists w1 (path_join (cwd w2) [n]) = fileExists w2 (path_join (cwd w2) [n])"
    if n: "n \<in> set requiredFiles" for n
  proof -
    from required_cases [OF n] show ?thesis
    proof
      assume "n = ''PROJECTS_MANIFEST.csv''"
      then show ?thesis
        using fileExists_cong [OF manifest_same] by simp
    next
      assume "n \<in> set secondaryFiles"
      then obtain rows1 rows2 where "readCsvSync w1 (path_join (cwd w2) [n]) = Inr rows1"
        and "readCsvSync w2 (path_join (cwd w2) [n]) = Inr rows2"
        using assms(4) by blast
      then show ?thesis
        by (auto simp: readCsvSync_def readFile_def fileExists_def
            split: option.splits node.splits)
    qed
  qed
  have "make_summary w1 ps = make_summary w2 ps" for ps
    using exists by (intro summary_cong assms(2) ids) simp
  then have summary: "make_summary w1 = make_summary w2"
    by (rule ext)
  show ?thesis
    using assms(1) summary loop by (rule main_dry_cong)
qed

theorem C10_foreign_rows_ignored_witness:
  "isDryRun (drop 2 (script_argv []))
   \<and> project_key stray_row \<notin> set (projectIds (full_world []))
   \<and> read_rows (full_world [stray_row]) ''HTML_SITES.csv'' = [stray_row, demo_site]
   \<and> read_rows (full_world []) ''HTML_SITES.csv'' = [demo_site]
   \<and> snd (main (script_argv []) (full_world [stray_row]))
       = snd (main (script_argv []) (full_world []))"
proof -
  have dry: "isDryRun (drop 2 (script_argv []))"
    by (simp add: script_argv_def isDryRun_def)
  have cwd: "cwd (full_world [stray_row]) = cwd (full_world [])"
    by (simp add: full_world_def)
  have ids: "projectIds (full_world []) = [''demo1'']"
    by (simp add: full_world_def sample_defs path_defs disk_defs object_defs plan_defs)
  have stray: "project_key stray_row \<notin> set (projectIds (full_world []))"
    by (simp add: ids project_key_def stray_row_def)
  have demo: "project_key demo_site \<in> set (projectIds (full_world []))"
    by (simp add: ids project_key_def demo_site_def)
  have sites: "read_rows (full_world [stray_row]) ''HTML_SITES.csv'' = [stray_row, demo_site]"
    "read_rows (full_world []) ''HTML_SITES.csv'' = [demo_site]"
    by (simp_all add: full_world_def csv_file_def path_defs disk_defs)
  have elsewhere: "\<forall>p. p \<notin> (\<lambda>n. path_join (cwd (full_world [])) [n]) ` set secondaryFiles
      \<longrightarrow> lookup (full_world [stray_row]) p = lookup (full_world []) p"
    by (simp add: full_world_def secondaryFiles_def path_defs lookup_def)
  have rows: "\<forall>n\<in>set secondaryFiles. \<exists>rows1 rows2.
           readCsvSync (full_world [stray_row]) (path_join (cwd (full_world [])) [n]) = Inr rows1
           \<and> readCsvSync (full_world []) (path_join (cwd (full_world [])) [n]) = Inr rows2
           \<and> filter (\<lambda>r. project_key r \<in> set (projectIds (full_world []))) rows1
               = filter (\<lambda>r. project_key r \<in> set (projectIds (full_world []))) rows2"
    using stray demo
    by (simp add: secondaryFiles_def full_world_def csv_file_def path_defs disk_defs)
  note ignored = C10_foreign_rows_ignored [OF dry cwd elsewhere rows]
  show ?thesis
    by (intro conjI dry stray sites ignored)
qed

end
